theory Spec2Isabelle
  imports Complex_Main "HOL-Library.Word"
begin

section \<open>The ledger contract: GhostGallery.sol\<close>

subsection \<open>Encrypted counters\<close>

text \<open>
  Modelled from the spec: the library \<^verbatim>\<open>@fhevm/solidity\<close> (\<^verbatim>\<open>FHE.asEuint32\<close>,
  \<^verbatim>\<open>FHE.add\<close>) is imported by the contract and is not part of the repository. The spec
  treats the cryptosystem as an opaque engine that adds homomorphically to encrypted unsigned
  counters; it is modelled by that ideal functionality. A value of type \<^verbatim>\<open>euint32\<close> is a
  handle: the all-zero handle a storage slot holds before anything is written
  (\<open>ZeroHandle\<close>, "uninitialized"), or a handle to the ciphertext of a 32-bit unsigned value
  (\<open>Enc\<close>). The width is the one the contract declares, and the repository's development
  reference states that arithmetic on encrypted integers is unchecked and wraps around on
  overflow, so \<^verbatim>\<open>FHE.add\<close> is addition of 32-bit words; on the uninitialized handle the
  library adds to a fresh encryption of zero.
\<close>

datatype euint32 = ZeroHandle | Enc "32 word"

definition FHE_asEuint32 :: "32 word \<Rightarrow> euint32" where
  "FHE_asEuint32 v = Enc v"

fun FHE_add :: "euint32 \<Rightarrow> 32 word \<Rightarrow> euint32" where
  "FHE_add ZeroHandle b = Enc (0 + b)"
| "FHE_add (Enc a) b = Enc (a + b)"

text \<open>Decryption of a handle by an authorized party; the uninitialized handle has no plaintext.\<close>

fun decrypt :: "euint32 \<Rightarrow> nat option" where
  "decrypt ZeroHandle = None"
| "decrypt (Enc v) = Some (unat v)"

subsection \<open>Storage\<close>

type_synonym address = "160 word"

record Artwork =
  artwork_id :: nat
  artist :: address
  title :: string
  descriptionHash :: string
  fileHash :: string
  tags :: "string list"
  categories :: "string list"
  likesEnc :: euint32
  timestamp :: "64 word"

text \<open>The value every key of a storage mapping holds before it is written.\<close>

definition Artwork_default :: Artwork where
  "Artwork_default =
     \<lparr>artwork_id = 0, artist = 0, title = [], descriptionHash = [], fileHash = [],
      tags = [], categories = [], likesEnc = ZeroHandle, timestamp = 0\<rparr>"

datatype grantee = This | Persistent address | Transient address

datatype event =
    ArtworkUploaded nat address string
  | ArtworkLiked nat address
  | ArtworkVoted nat address string

text \<open>
  The contract's storage, with the access-control grants it has issued and the events it has
  emitted. Category keys are \<^verbatim>\<open>bytes32\<close> hashes; their type is the parameter \<open>'h\<close>, and the hash
  function \<^verbatim>\<open>keccak256(bytes(.))\<close> is the parameter \<open>H\<close> of every operation that uses it.
  Ids are \<^verbatim>\<open>uint256\<close>: natural numbers, with the overflow check of the checked increment
  written out.
\<close>

record 'h gallery =
  nextArtworkId :: nat
  artworks :: "nat \<Rightarrow> Artwork"
  artworkIds :: "nat list"
  votesByArtworkAndCategory :: "nat \<Rightarrow> 'h \<Rightarrow> euint32"
  votesInitialized :: "nat \<Rightarrow> 'h \<Rightarrow> bool"
  grants :: "(euint32 \<times> grantee) list"
  events :: "event list"

definition deployed :: "'h gallery" where
  "deployed =
     \<lparr>nextArtworkId = 1, artworks = (\<lambda>_. Artwork_default), artworkIds = [],
      votesByArtworkAndCategory = (\<lambda>_ _. ZeroHandle), votesInitialized = (\<lambda>_ _. False),
      grants = [], events = []\<rparr>"

datatype error = Revert string | Panic nat

definition uint256_max :: nat where
  "uint256_max = 2 ^ 256 - 1"

subsection \<open>Operations\<close>

text \<open>The two \<^verbatim>\<open>for\<close> loops of \<^verbatim>\<open>uploadArtwork\<close>: push every element of a calldata array.\<close>

fun push_all :: "string list \<Rightarrow> string list \<Rightarrow> string list" where
  "push_all stored [] = stored"
| "push_all stored (x # xs) = push_all (stored @ [x]) xs"

definition uploadArtwork ::
  "address \<Rightarrow> nat \<Rightarrow> string \<Rightarrow> string \<Rightarrow> string \<Rightarrow> string list \<Rightarrow> string list \<Rightarrow>
   'h gallery \<Rightarrow> error + (nat \<times> 'h gallery)" where
  "uploadArtwork sender block_timestamp title' descriptionHash' fileHash' tags' categories' s =
     (if nextArtworkId s = uint256_max then Inl (Panic 17)
      else
        let artworkId = nextArtworkId s;
            s1 = s\<lparr>nextArtworkId := nextArtworkId s + 1\<rparr>;
            likes = FHE_asEuint32 0;
            a0 = artworks s1 artworkId;
            a1 = a0\<lparr>artwork_id := artworkId, artist := sender, title := title',
                   descriptionHash := descriptionHash', fileHash := fileHash',
                   timestamp := of_nat block_timestamp, likesEnc := likes\<rparr>;
            a2 = a1\<lparr>tags := push_all (tags a1) tags'\<rparr>;
            a3 = a2\<lparr>categories := push_all (categories a2) categories'\<rparr>;
            s2 = s1\<lparr>artworks := (artworks s1)(artworkId := a3)\<rparr>;
            s3 = s2\<lparr>grants := grants s2 @ [(likesEnc a3, This), (likesEnc a3, Persistent sender)]\<rparr>;
            s4 = s3\<lparr>artworkIds := artworkIds s3 @ [artworkId]\<rparr>;
            s5 = s4\<lparr>events := events s4 @ [ArtworkUploaded artworkId sender title']\<rparr>
        in Inr (artworkId, s5))"

definition likeArtwork :: "address \<Rightarrow> nat \<Rightarrow> 'h gallery \<Rightarrow> error + 'h gallery" where
  "likeArtwork sender artworkId s =
     (let a = artworks s artworkId in
      if artist a = 0 then Inl (Revert ''Artwork not found'')
      else
        let a1 = a\<lparr>likesEnc := FHE_add (likesEnc a) 1\<rparr>;
            s1 = s\<lparr>artworks := (artworks s)(artworkId := a1)\<rparr>;
            s2 = s1\<lparr>grants := grants s1 @
                   [(likesEnc a1, This), (likesEnc a1, Persistent (artist a1)),
                    (likesEnc a1, Transient sender)]\<rparr>
        in Inr (s2\<lparr>events := events s2 @ [ArtworkLiked artworkId sender]\<rparr>))"

text \<open>The membership loop of \<^verbatim>\<open>voteArtwork\<close>: compare hashes, stop at the first match.\<close>

fun belongsToCategory :: "(string \<Rightarrow> 'h) \<Rightarrow> string list \<Rightarrow> string \<Rightarrow> bool" where
  "belongsToCategory H [] category = False"
| "belongsToCategory H (c # cs) category =
     (if H c = H category then True else belongsToCategory H cs category)"

definition voteArtwork ::
  "(string \<Rightarrow> 'h) \<Rightarrow> address \<Rightarrow> nat \<Rightarrow> string \<Rightarrow> 'h gallery \<Rightarrow> error + 'h gallery" where
  "voteArtwork H sender artworkId category s =
     (let a = artworks s artworkId in
      if artist a = 0 then Inl (Revert ''Artwork not found'')
      else if \<not> belongsToCategory H (categories a) category
      then Inl (Revert ''Artwork does not belong to this category'')
      else
        let catKey = H category;
            current = votesByArtworkAndCategory s artworkId catKey;
            initialized = votesInitialized s artworkId catKey;
            current1 = (if \<not> initialized then FHE_asEuint32 0 else current);
            s1 = (if \<not> initialized
                  then s\<lparr>votesInitialized :=
                          (votesInitialized s)(artworkId := (votesInitialized s artworkId)(catKey := True))\<rparr>
                  else s);
            current2 = FHE_add current1 1;
            s2 = s1\<lparr>votesByArtworkAndCategory :=
                      (votesByArtworkAndCategory s1)
                        (artworkId := (votesByArtworkAndCategory s1 artworkId)(catKey := current2))\<rparr>;
            s3 = s2\<lparr>grants := grants s2 @
                   [(current2, This), (current2, Persistent (artist a)), (current2, Transient sender)]\<rparr>
        in Inr (s3\<lparr>events := events s3 @ [ArtworkVoted artworkId sender category]\<rparr>))"

definition getArtwork ::
  "'h gallery \<Rightarrow> nat \<Rightarrow>
   error + (nat \<times> address \<times> string \<times> string \<times> string \<times> string list \<times> string list \<times> 64 word \<times> euint32)" where
  "getArtwork s artworkId =
     (let a = artworks s artworkId in
      if artist a = 0 then Inl (Revert ''Artwork not found'')
      else Inr (artwork_id a, artist a, title a, descriptionHash a, fileHash a, tags a,
                categories a, timestamp a, likesEnc a))"

definition getAllArtworks :: "'h gallery \<Rightarrow> nat list" where
  "getAllArtworks s = artworkIds s"

definition getVotes :: "(string \<Rightarrow> 'h) \<Rightarrow> 'h gallery \<Rightarrow> nat \<Rightarrow> string \<Rightarrow> error + euint32" where
  "getVotes H s artworkId category =
     (let catKey = H category in Inr (votesByArtworkAndCategory s artworkId catKey))"

subsection \<open>Transactions\<close>

text \<open>
  A transaction calls one state-changing function. When the call reverts, the ledger keeps
  the storage it had before the call.
\<close>

datatype call =
    Upload address nat string string string "string list" "string list"
  | Like address nat
  | Vote address nat string

fun exec :: "(string \<Rightarrow> 'h) \<Rightarrow> call \<Rightarrow> 'h gallery \<Rightarrow> error + 'h gallery" where
  "exec H (Upload sender ts t d f tg cs) s =
     (case uploadArtwork sender ts t d f tg cs s of Inl e \<Rightarrow> Inl e | Inr (_, s') \<Rightarrow> Inr s')"
| "exec H (Like sender i) s = likeArtwork sender i s"
| "exec H (Vote sender i c) s = voteArtwork H sender i c s"

definition transact :: "(string \<Rightarrow> 'h) \<Rightarrow> call \<Rightarrow> 'h gallery \<Rightarrow> 'h gallery" where
  "transact H c s = (case exec H c s of Inl _ \<Rightarrow> s | Inr s' \<Rightarrow> s')"

fun run :: "(string \<Rightarrow> 'h) \<Rightarrow> call list \<Rightarrow> 'h gallery \<Rightarrow> 'h gallery" where
  "run H [] s = s"
| "run H (c # cs) s = run H cs (transact H c s)"

text \<open>How many calls of a trace that satisfy \<open>P\<close> succeed (do not revert).\<close>

fun succeeded :: "(string \<Rightarrow> 'h) \<Rightarrow> (call \<Rightarrow> bool) \<Rightarrow> call list \<Rightarrow> 'h gallery \<Rightarrow> nat" where
  "succeeded H P [] s = 0"
| "succeeded H P (c # cs) s =
     (if P c \<and> isl (exec H c s) = False then 1 else 0) + succeeded H P cs (transact H c s)"

fun is_like :: "nat \<Rightarrow> call \<Rightarrow> bool" where
  "is_like i (Like _ j) = (i = j)"
| "is_like i _ = False"

fun is_vote :: "(string \<Rightarrow> 'h) \<Rightarrow> nat \<Rightarrow> 'h \<Rightarrow> call \<Rightarrow> bool" where
  "is_vote H i k (Vote _ j c) = (i = j \<and> H c = k)"
| "is_vote H i k _ = False"

fun call_sender :: "call \<Rightarrow> address" where
  "call_sender (Upload sender _ _ _ _ _ _) = sender"
| "call_sender (Like sender _) = sender"
| "call_sender (Vote sender _ _) = sender"

subsection \<open>Invariants of the storage\<close>

text \<open>Id 0 and the ids not yet allocated hold the default artwork.\<close>

definition fresh_above :: "'h gallery \<Rightarrow> bool" where
  "fresh_above s =
     (1 \<le> nextArtworkId s \<and> (\<forall>i. i = 0 \<or> nextArtworkId s \<le> i \<longrightarrow> artworks s i = Artwork_default))"

text \<open>The listing holds the allocated ids, in order.\<close>

definition listing_ok :: "'h gallery \<Rightarrow> bool" where
  "listing_ok s = (1 \<le> nextArtworkId s \<and> artworkIds s = [1..<nextArtworkId s])"

text \<open>Every allocated id has an artist.\<close>

definition all_exist :: "'h gallery \<Rightarrow> bool" where
  "all_exist s = (\<forall>i. 1 \<le> i \<and> i < nextArtworkId s \<longrightarrow> artist (artworks s i) \<noteq> 0)"

text \<open>
  The plaintext \<^verbatim>\<open>voteArtwork\<close> adds to: zero when the pair is not marked initialized (the
  function then starts from a fresh encryption of zero), the stored one otherwise.
\<close>

definition vote_value :: "'h gallery \<Rightarrow> nat \<Rightarrow> 'h \<Rightarrow> 32 word" where
  "vote_value s i k =
     (if votesInitialized s i k
      then (case votesByArtworkAndCategory s i k of ZeroHandle \<Rightarrow> 0 | Enc v \<Rightarrow> v) else 0)"

section \<open>The encryption runtime: RelayerSDKLoader.ts and fhevm.ts\<close>

subsection \<open>The process-wide namespace and the engine loader\<close>

datatype js_error = FhevmAbortError | Error string | TypeError string

definition SDK_CDN_URL :: string where
  "SDK_CDN_URL = ''https://cdn.zama.ai/relayer-sdk-js/0.2.0/relayer-sdk-js.umd.cjs''"

text \<open>
  The value stored under the key \<^verbatim>\<open>relayerSDK\<close> of \<^verbatim>\<open>window\<close>: a falsy value
  (\<^verbatim>\<open>undefined\<close>, \<^verbatim>\<open>null\<close>, ...) or a truthy one, of which the model records whether
  \<^verbatim>\<open>initSDK\<close> and \<^verbatim>\<open>createInstance\<close> are callable. The key itself may be absent
  (\<open>None\<close>).
\<close>

datatype sdk_value = Falsy | Sdk (has_initSDK: bool) (has_createInstance: bool)

type_synonym window = "sdk_value option"

fun isFhevmWindowType :: "window \<Rightarrow> bool" where
  "isFhevmWindowType (Some (Sdk _ _)) = True"
| "isFhevmWindowType _ = False"

text \<open>
  What the injected script element does: it fires \<^verbatim>\<open>onload\<close>, having left the namespace in
  the given state, or it fires \<^verbatim>\<open>onerror\<close>.
\<close>

datatype script_outcome = OnLoad window | OnError

datatype FhevmRelayerStatusType =
  sdk_loading | sdk_loaded | sdk_initializing | sdk_initialized | creating

text \<open>
  The state of the process: the namespace, and what the run has done to the outside so far
  (script elements appended, calls of the engine's \<^verbatim>\<open>initSDK\<close>, status notifications).
\<close>

record world =
  relayerSDK :: window
  script_fetches :: "string list"
  initSDK_calls :: nat
  notified :: "FhevmRelayerStatusType list"

definition load :: "(string \<Rightarrow> script_outcome) \<Rightarrow> world \<Rightarrow> (js_error + unit) \<times> world" where
  "load fetch w =
     (if relayerSDK w \<noteq> None then (Inr (), w)
      else
        let src = SDK_CDN_URL;
            w1 = w\<lparr>script_fetches := script_fetches w @ [src]\<rparr>
        in (case fetch src of
              OnLoad installed \<Rightarrow> (Inr (), w1\<lparr>relayerSDK := installed\<rparr>)
            | OnError \<Rightarrow> (Inl (Error (''Failed to load '' @ SDK_CDN_URL)), w1)))"

subsection \<open>The network resolver\<close>

datatype 'p providerOrUrl = Url string | Provider 'p

datatype ResolveResult = Mock int string | NotMock int "string option"

fun isMock :: "ResolveResult \<Rightarrow> bool" where
  "isMock (Mock _ _) = True"
| "isMock (NotMock _ _) = False"

fun chainId :: "ResolveResult \<Rightarrow> int" where
  "chainId (Mock c _) = c"
| "chainId (NotMock c _) = c"

fun rpcUrl :: "ResolveResult \<Rightarrow> string option" where
  "rpcUrl (Mock _ u) = Some u"
| "rpcUrl (NotMock _ u) = u"

text \<open>\<^verbatim>\<open>{ 31337: "http://localhost:8545", ...(mockChains ?? {}) }\<close>: later keys win.\<close>

definition merged_mockChains :: "(int \<rightharpoonup> string) option \<Rightarrow> (int \<rightharpoonup> string)" where
  "merged_mockChains mockChains =
     [31337 \<mapsto> ''http://localhost:8545''] ++ (case mockChains of None \<Rightarrow> Map.empty | Some m \<Rightarrow> m)"

text \<open>
  \<^verbatim>\<open>getChainId\<close> asks the transport and may fail; it is the parameter \<open>getChainId\<close>. A chain id
  is an integer.
\<close>

definition resolve ::
  "('p providerOrUrl \<Rightarrow> js_error + int) \<Rightarrow> 'p providerOrUrl \<Rightarrow> (int \<rightharpoonup> string) option \<Rightarrow>
   js_error + ResolveResult" where
  "resolve getChainId providerOrUrl mockChains =
     (case getChainId providerOrUrl of
        Inl e \<Rightarrow> Inl e
      | Inr cid \<Rightarrow>
          let url = (case providerOrUrl of Url u \<Rightarrow> Some u | Provider _ \<Rightarrow> None);
              mc = merged_mockChains mockChains
          in (case mc cid of
                Some entry \<Rightarrow>
                  Inr (Mock cid (case url of None \<Rightarrow> entry | Some u \<Rightarrow> (if u = [] then entry else u)))
              | None \<Rightarrow> Inr (NotMock cid url)))"

subsection \<open>The instance factory\<close>

record metadata =
  ACLAddress :: string
  InputVerifierAddress :: string
  KMSVerifierAddress :: string

text \<open>\<^verbatim>\<open>String.prototype.toLowerCase\<close> on the ASCII letters, and \<^verbatim>\<open>String.prototype.includes\<close>.\<close>

definition toLowerCase :: "string \<Rightarrow> string" where
  "toLowerCase s =
     map (\<lambda>c. let n = (of_char c :: nat) in if 65 \<le> n \<and> n \<le> 90 then char_of (n + 32) else c) s"

fun starts_with :: "string \<Rightarrow> string \<Rightarrow> bool" where
  "starts_with [] s = True"
| "starts_with (p # ps) [] = False"
| "starts_with (p # ps) (c # cs) = (p = c \<and> starts_with ps cs)"

fun includes_str :: "string \<Rightarrow> string \<Rightarrow> bool" where
  "includes_str [] sub = (sub = [])"
| "includes_str (c # cs) sub = (starts_with sub (c # cs) \<or> includes_str cs sub)"

text \<open>
  The answers of the outside world to the calls a run awaits. Every awaited call settles:
  it yields a value or it rejects with an error. The client version is a string or some other
  value (\<open>None\<close>); the relay metadata is falsy (\<open>None\<close>) or an object whose missing fields are
  empty strings; \<^verbatim>\<open>initSDK\<close> is asked with the number of calls made before.
\<close>

record ('p, 'i) env =
  getChainId :: "'p providerOrUrl \<Rightarrow> js_error + int"
  getWeb3Client :: "string \<Rightarrow> js_error + string option"
  getFHEVMRelayerMetadata :: "string \<Rightarrow> js_error + metadata option"
  fhevmMockCreateInstance :: "string \<Rightarrow> int \<Rightarrow> metadata \<Rightarrow> js_error + 'i"
  script :: "string \<Rightarrow> script_outcome"
  initSDK :: "nat \<Rightarrow> js_error + bool"
  createInstance :: "'p providerOrUrl \<Rightarrow> js_error + 'i"

definition notify :: "FhevmRelayerStatusType \<Rightarrow> world \<Rightarrow> world" where
  "notify s w = w\<lparr>notified := notified w @ [s]\<rparr>"

text \<open>
  The probe of the emulated engine, inside its \<^verbatim>\<open>try\<close>: \<open>Some\<close> is the \<^verbatim>\<open>return\<close> of the mock
  instance, \<open>None\<close> is falling out of the \<^verbatim>\<open>if\<close> or into the \<^verbatim>\<open>catch\<close>, which only logs.
\<close>

definition mock_probe :: "('p, 'i) env \<Rightarrow> string \<Rightarrow> int \<Rightarrow> 'i option" where
  "mock_probe env url cid =
     (case getWeb3Client env url of
        Inl _ \<Rightarrow> None
      | Inr version \<Rightarrow>
          (case version of
             None \<Rightarrow> None
           | Some v \<Rightarrow>
               if includes_str (toLowerCase v) ''hardhat'' then
                 (case getFHEVMRelayerMetadata env url of
                    Inl _ \<Rightarrow> None
                  | Inr None \<Rightarrow> None
                  | Inr (Some m) \<Rightarrow>
                      if ACLAddress m \<noteq> [] \<and> InputVerifierAddress m \<noteq> [] \<and> KMSVerifierAddress m \<noteq> []
                      then (case fhevmMockCreateInstance env url cid m of
                              Inl _ \<Rightarrow> None
                            | Inr instance' \<Rightarrow> Some instance')
                      else None)
               else None))"

text \<open>
  The production path. The signal is asked at the three places \<^verbatim>\<open>throwIfAborted\<close> stands
  (\<open>signal 0\<close> after the load, \<open>signal 1\<close> after the initialization, \<open>signal 2\<close> after the
  construction). Calling a method the engine object does not have throws a \<^verbatim>\<open>TypeError\<close>.
\<close>

definition create_step ::
  "('p, 'i) env \<Rightarrow> 'p providerOrUrl \<Rightarrow> (nat \<Rightarrow> bool) \<Rightarrow> world \<Rightarrow> (js_error + 'i) \<times> world" where
  "create_step env providerOrUrl signal w =
     (let w1 = notify creating w in
      case relayerSDK w1 of
        Some (Sdk _ True) \<Rightarrow>
          (case createInstance env providerOrUrl of
             Inl e \<Rightarrow> (Inl e, w1)
           | Inr instance' \<Rightarrow>
               if signal 2 then (Inl FhevmAbortError, w1) else (Inr instance', w1))
      | _ \<Rightarrow> (Inl (TypeError ''relayerSDK.createInstance is not a function''), w1))"

definition init_step ::
  "('p, 'i) env \<Rightarrow> 'p providerOrUrl \<Rightarrow> (nat \<Rightarrow> bool) \<Rightarrow> world \<Rightarrow> (js_error + 'i) \<times> world" where
  "init_step env providerOrUrl signal w =
     (let w1 = notify sdk_initializing w in
      case relayerSDK w1 of
        Some (Sdk True _) \<Rightarrow>
          (let w2 = w1\<lparr>initSDK_calls := initSDK_calls w1 + 1\<rparr> in
           case initSDK env (initSDK_calls w1) of
             Inl e \<Rightarrow> (Inl e, w2)
           | Inr ok \<Rightarrow>
               if \<not> ok then (Inl (Error ''FHEVM SDK init failed''), w2)
               else if signal 1 then (Inl FhevmAbortError, w2)
               else create_step env providerOrUrl signal (notify sdk_initialized w2))
      | _ \<Rightarrow> (Inl (TypeError ''window.relayerSDK.initSDK is not a function''), w1))"

definition load_step ::
  "('p, 'i) env \<Rightarrow> 'p providerOrUrl \<Rightarrow> (nat \<Rightarrow> bool) \<Rightarrow> world \<Rightarrow> (js_error + 'i) \<times> world" where
  "load_step env providerOrUrl signal w =
     (if \<not> isFhevmWindowType (relayerSDK w) then
        (case load (script env) (notify sdk_loading w) of
           (Inl e, w1) \<Rightarrow> (Inl e, w1)
         | (Inr _, w1) \<Rightarrow>
             if signal 0 then (Inl FhevmAbortError, w1)
             else init_step env providerOrUrl signal (notify sdk_loaded w1))
      else init_step env providerOrUrl signal w)"

definition createFhevmInstance ::
  "('p, 'i) env \<Rightarrow> 'p providerOrUrl \<Rightarrow> (int \<rightharpoonup> string) option \<Rightarrow> (nat \<Rightarrow> bool) \<Rightarrow> world \<Rightarrow>
   (js_error + 'i) \<times> world" where
  "createFhevmInstance env providerOrUrl mockChains signal w =
     (case resolve (getChainId env) providerOrUrl mockChains of
        Inl e \<Rightarrow> (Inl e, w)
      | Inr (Mock cid url) \<Rightarrow>
          (case mock_probe env url cid of
             Some instance' \<Rightarrow> (Inr instance', w)
           | None \<Rightarrow> load_step env providerOrUrl signal w)
      | Inr (NotMock cid url) \<Rightarrow> load_step env providerOrUrl signal w)"

subsection \<open>The lifecycle controller: useFhevm\<close>

datatype FhevmGoState = idle | loading | ready | error_state

text \<open>
  The hook's three state cells and its \<^verbatim>\<open>initializingRef\<close>. An activation is one run of the
  effect: its synchronous part (\<open>effect\<close>) either skips or marks the controller loading and
  starts \<^verbatim>\<open>initAsync\<close>; the continuation of \<^verbatim>\<open>initAsync\<close> after its \<^verbatim>\<open>await\<close> (\<open>settle\<close>)
  runs later, when \<^verbatim>\<open>createFhevmInstance\<close> has returned or thrown. The abort controller the
  run creates is never aborted, so the signal it passes is constantly false.
\<close>

record 'i controller =
  instance_cell :: "'i option"
  status_cell :: FhevmGoState
  error_cell :: "js_error option"
  initializingRef :: bool

definition mounted :: "'i controller" where
  "mounted = \<lparr>instance_cell = None, status_cell = idle, error_cell = None, initializingRef = False\<rparr>"

definition refresh :: "'i controller \<Rightarrow> 'i controller" where
  "refresh c = c\<lparr>initializingRef := False, instance_cell := None, error_cell := None, status_cell := idle\<rparr>"

text \<open>The second component tells whether \<^verbatim>\<open>initAsync\<close> was started.\<close>

definition effect :: "bool \<Rightarrow> 'p option \<Rightarrow> 'i controller \<Rightarrow> 'i controller \<times> bool" where
  "effect enabled provider c =
     (if \<not> enabled \<or> provider = None \<or> initializingRef c then (c, False)
      else (c\<lparr>initializingRef := True, status_cell := loading, error_cell := None\<rparr>, True))"

definition settle :: "js_error + 'i \<Rightarrow> 'i controller \<Rightarrow> 'i controller" where
  "settle outcome c =
     (case outcome of
        Inr inst \<Rightarrow> c\<lparr>instance_cell := Some inst, status_cell := ready\<rparr>
      | Inl e \<Rightarrow> c\<lparr>error_cell := Some e, status_cell := error_state\<rparr>)
     \<lparr>initializingRef := False\<rparr>"

definition never_aborted :: "nat \<Rightarrow> bool" where
  "never_aborted k = False"

text \<open>
  One activation with nothing in between: the effect, the whole of \<^verbatim>\<open>createFhevmInstance\<close>,
  and the continuation.
\<close>

definition activate ::
  "('p, 'i) env \<Rightarrow> bool \<Rightarrow> 'p option \<Rightarrow> (int \<rightharpoonup> string) option \<Rightarrow> 'i controller \<times> world \<Rightarrow>
   'i controller \<times> world" where
  "activate env enabled provider mockChains cw =
     (case effect enabled provider (fst cw) of
        (c1, False) \<Rightarrow> (c1, snd cw)
      | (c1, True) \<Rightarrow>
          (case provider of
             None \<Rightarrow> (c1, snd cw)
           | Some p \<Rightarrow>
               (case createFhevmInstance env (Provider p) mockChains never_aborted (snd cw) of
                  (outcome, w1) \<Rightarrow> (settle outcome c1, w1))))"

text \<open>
  The events a controller sees, in the order they happen: an effect run with its parameters,
  the arrival of the result of a started run, a call of \<^verbatim>\<open>refresh\<close>.
\<close>

datatype ('p, 'i) hook_event = Effect bool "'p option" | Settled "js_error + 'i" | Refresh

fun step :: "('p, 'i) hook_event \<Rightarrow> 'i controller \<Rightarrow> 'i controller" where
  "step (Effect enabled provider) c = fst (effect enabled provider c)"
| "step (Settled outcome) c = settle outcome c"
| "step Refresh c = refresh c"

fun steps :: "('p, 'i) hook_event list \<Rightarrow> 'i controller \<Rightarrow> 'i controller" where
  "steps [] c = c"
| "steps (e # es) c = steps es (step e c)"

subsection \<open>Decryption grants: FhevmDecryptionSignature\<close>

text \<open>
  \<^verbatim>\<open>Date.now()\<close> is an integer number of milliseconds; the other numbers are read as reals,
  with exact arithmetic in place of double precision.
\<close>

record 'e FhevmDecryptionSignature =
  publicKey :: string
  privateKey :: string
  signature :: string
  startTimestamp :: real
  durationDays :: real
  userAddress :: string
  contractAddresses :: "string list"
  eip712 :: 'e

definition isValid :: "'e FhevmDecryptionSignature \<Rightarrow> int \<Rightarrow> bool" where
  "isValid g Date_now =
     (real_of_int Date_now / 1000 < startTimestamp g + durationDays g * 24 * 60 * 60)"

text \<open>
  \<^verbatim>\<open>FhevmDecryptionSignature.new\<close>: the session's \<^verbatim>\<open>createEIP712\<close> and the signer's two
  methods are parameters that may throw; any failure makes the result \<^verbatim>\<open>null\<close>.
\<close>

definition new_signature ::
  "(string \<Rightarrow> string list \<Rightarrow> real \<Rightarrow> real \<Rightarrow> js_error + 'e) \<Rightarrow> string list \<Rightarrow> string \<Rightarrow> string \<Rightarrow>
   (js_error + string) \<Rightarrow> ('e \<Rightarrow> js_error + string) \<Rightarrow> int \<Rightarrow> 'e FhevmDecryptionSignature option" where
  "new_signature createEIP712 contractAddresses' publicKey' privateKey' getAddress signTypedData Date_now =
     (case getAddress of
        Inl _ \<Rightarrow> None
      | Inr userAddress' \<Rightarrow>
          let startTimestamp' = real_of_int \<lfloor>real_of_int Date_now / 1000\<rfloor>;
              durationDays' = 365
          in (case createEIP712 publicKey' contractAddresses' startTimestamp' durationDays' of
                Inl _ \<Rightarrow> None
              | Inr eip712' \<Rightarrow>
                  (case signTypedData eip712' of
                     Inl _ \<Rightarrow> None
                   | Inr signature' \<Rightarrow>
                       Some \<lparr>publicKey = publicKey', privateKey = privateKey', signature = signature',
                             startTimestamp = startTimestamp', durationDays = durationDays',
                             userAddress = userAddress', contractAddresses = contractAddresses',
                             eip712 = eip712'\<rparr>)))"

subsection \<open>A concrete environment\<close>

text \<open>
  Concrete inputs on which the definitions are evaluated: a transport on a remote chain
  (Sepolia, 11155111) where every engine call succeeds, and a process in which a well-formed
  engine object is already installed.
\<close>

definition example_env :: "(unit, nat) env" where
  "example_env =
     \<lparr>getChainId = (\<lambda>_. Inr 11155111),
      getWeb3Client = (\<lambda>_. Inl (Error ''unreachable'')),
      getFHEVMRelayerMetadata = (\<lambda>_. Inl (Error ''unreachable'')),
      fhevmMockCreateInstance = (\<lambda>_ _ _. Inl (Error ''unreachable'')),
      script = (\<lambda>_. OnLoad (Some (Sdk True True))),
      initSDK = (\<lambda>_. Inr True),
      createInstance = (\<lambda>_. Inr 42)\<rparr>"

definition example_world :: world where
  "example_world =
     \<lparr>relayerSDK = Some (Sdk True True), script_fetches = [], initSDK_calls = 0, notified = []\<rparr>"

section \<open>Properties of the ledger contract\<close>

lemma push_all_append: "push_all stored xs = stored @ xs"
  by (induction xs arbitrary: stored) simp_all

lemmas op_defs = transact_def uploadArtwork_def likeArtwork_def voteArtwork_def Let_def

lemma belongsToCategory_iff: "belongsToCategory H cs c \<longleftrightarrow> H c \<in> H ` set cs"
  by (induction cs) auto

lemma fresh_above_deployed: "fresh_above deployed"
  by (simp add: fresh_above_def deployed_def)

lemma nextArtworkId_transact: "nextArtworkId s \<le> nextArtworkId (transact H c s)"
  by (cases c) (simp_all add: op_defs)

lemma nextArtworkId_run: "nextArtworkId s \<le> nextArtworkId (run H cs s)"
proof (induction cs arbitrary: s)
  case Nil
  show ?case by simp
next
  case (Cons c cs)
  have "nextArtworkId s \<le> nextArtworkId (transact H c s)"
    by (rule nextArtworkId_transact)
  also have "\<dots> \<le> nextArtworkId (run H cs (transact H c s))"
    by (rule Cons.IH)
  finally show ?case by simp
qed

lemma artworks_untouched:
  "artist (artworks s i) = 0 \<Longrightarrow> i < nextArtworkId s \<or> nextArtworkId (transact H c s) \<le> i \<Longrightarrow>
   artworks (transact H c s) i = artworks s i"
  by (cases c) (auto simp add: op_defs)

lemma fresh_above_transact:
  assumes "fresh_above s"
  shows "fresh_above (transact H c s)"
proof -
  have "artworks (transact H c s) i = Artwork_default"
    if "i = 0 \<or> nextArtworkId (transact H c s) \<le> i" for i
  proof -
    from that assms nextArtworkId_transact [of s H c]
    have d: "artworks s i = Artwork_default"
      by (auto simp add: fresh_above_def)
    then have "artist (artworks s i) = 0"
      by (simp add: Artwork_default_def)
    moreover from that assms have "i < nextArtworkId s \<or> nextArtworkId (transact H c s) \<le> i"
      by (auto simp add: fresh_above_def)
    ultimately show ?thesis
      using d by (simp add: artworks_untouched)
  qed
  moreover from assms nextArtworkId_transact [of s H c] have "1 \<le> nextArtworkId (transact H c s)"
    by (simp add: fresh_above_def)
  ultimately show ?thesis
    by (simp add: fresh_above_def)
qed

lemma fresh_above_run: "fresh_above s \<Longrightarrow> fresh_above (run H cs s)"
  by (induction cs arbitrary: s) (simp_all add: fresh_above_transact)

text \<open>One transaction and the like counter of an allocated artwork.\<close>

lemma likes_transact:
  "i < nextArtworkId s \<Longrightarrow>
   likesEnc (artworks (transact H c s) i) =
     (if is_like i c \<and> isl (exec H c s) = False then FHE_add (likesEnc (artworks s i)) 1
      else likesEnc (artworks s i))"
  by (cases c) (auto simp add: op_defs)

lemma likes_allocated:
  "i < nextArtworkId s \<Longrightarrow> likesEnc (artworks s i) = Enc v \<Longrightarrow>
   likesEnc (artworks (run H cs s) i) = Enc (v + of_nat (succeeded H (is_like i) cs s))"
proof (induction cs arbitrary: s v)
  case Nil
  then show ?case by simp
next
  case (Cons c cs)
  let ?s1 = "transact H c s"
  from Cons.prems(1) nextArtworkId_transact [of s H c] have lt: "i < nextArtworkId ?s1"
    by simp
  show ?case
  proof (cases "is_like i c \<and> isl (exec H c s) = False")
    case True
    with Cons.prems have "likesEnc (artworks ?s1 i) = Enc (v + 1)"
      by (simp add: likes_transact)
    from Cons.IH [OF lt this] True show ?thesis
      by (simp add: add.assoc)
  next
    case False
    with Cons.prems have "likesEnc (artworks ?s1 i) = Enc v"
      by (simp add: likes_transact)
    from Cons.IH [OF lt this] False show ?thesis
      by auto
  qed
qed

lemma fresh_upload_likes:
  "nextArtworkId s \<le> i \<Longrightarrow> i < nextArtworkId (transact H c s) \<Longrightarrow>
   likesEnc (artworks (transact H c s) i) = Enc 0"
  by (cases c) (auto simp add: op_defs FHE_asEuint32_def split: if_splits)

lemma likes_unallocated:
  "fresh_above s \<Longrightarrow> nextArtworkId s \<le> i \<Longrightarrow>
   (if i < nextArtworkId (run H cs s)
    then likesEnc (artworks (run H cs s) i) = Enc (of_nat (succeeded H (is_like i) cs s))
    else succeeded H (is_like i) cs s = 0 \<and> artworks (run H cs s) i = Artwork_default)"
proof (induction cs arbitrary: s)
  case Nil
  then show ?case by (simp add: fresh_above_def)
next
  case (Cons c cs)
  let ?s1 = "transact H c s"
  have fresh1: "fresh_above ?s1"
    using Cons.prems(1) by (rule fresh_above_transact)
  have dflt: "artworks s i = Artwork_default"
    using Cons.prems by (simp add: fresh_above_def)
  have not_counted: "\<not> (is_like i c \<and> isl (exec H c s) = False)"
    using dflt by (cases c) (auto simp add: likeArtwork_def Artwork_default_def)
  show ?case
  proof (cases "i < nextArtworkId ?s1")
    case False
    with Cons.IH [of ?s1] fresh1 not_counted show ?thesis
      by simp
  next
    case True
    with Cons.prems(2) have "likesEnc (artworks ?s1 i) = Enc 0"
      by (simp add: fresh_upload_likes)
    with likes_allocated [of i ?s1 0 H cs] True
    have "likesEnc (artworks (run H cs ?s1) i) = Enc (of_nat (succeeded H (is_like i) cs ?s1))"
      by simp
    moreover from True nextArtworkId_run [of ?s1 H cs] have "i < nextArtworkId (run H cs ?s1)"
      by simp
    ultimately show ?thesis
      using not_counted by simp
  qed
qed

lemma votes_transact:
  "votesByArtworkAndCategory (transact H c s) i k =
     (if is_vote H i k c \<and> isl (exec H c s) = False then Enc (vote_value s i k + 1)
      else votesByArtworkAndCategory s i k)"
  by (cases c) (auto simp add: op_defs vote_value_def FHE_asEuint32_def split: euint32.splits)

lemma votesInitialized_transact:
  "votesInitialized (transact H c s) i k =
     (votesInitialized s i k \<or> is_vote H i k c \<and> isl (exec H c s) = False)"
  by (cases c) (auto simp add: op_defs)

lemma vote_value_transact:
  "vote_value (transact H c s) i k =
     vote_value s i k + (if is_vote H i k c \<and> isl (exec H c s) = False then 1 else 0)"
  by (simp add: vote_value_def [of "transact H c s"] votes_transact votesInitialized_transact)
     (simp add: vote_value_def)

lemma votes_run:
  "votesByArtworkAndCategory (run H cs s) i k =
     (if succeeded H (is_vote H i k) cs s = 0 then votesByArtworkAndCategory s i k
      else Enc (vote_value s i k + of_nat (succeeded H (is_vote H i k) cs s)))"
proof (induction cs arbitrary: s)
  case Nil
  show ?case by simp
next
  case (Cons c cs)
  show ?case
    by (simp add: Cons.IH votes_transact vote_value_transact add.assoc)
qed

lemma votes_from_deployed:
  "votesByArtworkAndCategory (run H cs deployed) i k =
     (if succeeded H (is_vote H i k) cs deployed = 0 then ZeroHandle
      else Enc (of_nat (succeeded H (is_vote H i k) cs deployed)))"
  by (simp add: votes_run) (simp add: deployed_def vote_value_def)

lemma likes_from_deployed:
  assumes "i \<noteq> 0" "i < nextArtworkId (run H cs deployed)"
  shows "likesEnc (artworks (run H cs deployed) i) = Enc (of_nat (succeeded H (is_like i) cs deployed))"
proof -
  have "nextArtworkId (deployed :: 'a gallery) \<le> i"
    using assms(1) by (simp add: deployed_def)
  from likes_unallocated [OF fresh_above_deployed this, of H cs] assms(2) show ?thesis
    by simp
qed

lemma listing_ok_transact: "listing_ok s \<Longrightarrow> listing_ok (transact H c s)"
  by (cases c) (auto simp add: op_defs listing_ok_def)

lemma listing_ok_run: "listing_ok s \<Longrightarrow> listing_ok (run H cs s)"
  by (induction cs arbitrary: s) (simp_all add: listing_ok_transact)

lemma listing_ok_deployed: "listing_ok deployed"
  by (simp add: listing_ok_def deployed_def)

lemma all_exist_transact: "call_sender c \<noteq> 0 \<Longrightarrow> all_exist s \<Longrightarrow> all_exist (transact H c s)"
  by (cases c) (auto simp add: op_defs all_exist_def)

lemma all_exist_run: "\<forall>c \<in> set cs. call_sender c \<noteq> 0 \<Longrightarrow> all_exist s \<Longrightarrow> all_exist (run H cs s)"
  by (induction cs arbitrary: s) (simp_all add: all_exist_transact)

lemma all_exist_deployed: "all_exist deployed"
  by (simp add: all_exist_def deployed_def)

lemma vote_unknown_fails:
  "artist (artworks s i) = 0 \<Longrightarrow> \<not> (is_vote H i k c \<and> isl (exec H c s) = False)"
  by (cases c) (auto simp add: voteArtwork_def)

lemma votes_unallocated:
  "fresh_above s \<Longrightarrow> i = 0 \<or> nextArtworkId (run H cs s) \<le> i \<Longrightarrow>
   succeeded H (is_vote H i k) cs s = 0"
proof (induction cs arbitrary: s)
  case Nil
  show ?case by simp
next
  case (Cons c cs)
  from Cons.prems nextArtworkId_run [of "transact H c s" H cs] nextArtworkId_transact [of s H c]
  have "artworks s i = Artwork_default"
    by (auto simp add: fresh_above_def)
  then have "artist (artworks s i) = 0"
    by (simp add: Artwork_default_def)
  then have "\<not> (is_vote H i k c \<and> isl (exec H c s) = False)"
    by (rule vote_unknown_fails)
  moreover from Cons.prems have "succeeded H (is_vote H i k) cs (transact H c s) = 0"
    by (intro Cons.IH fresh_above_transact) simp_all
  ultimately show ?case by simp
qed

lemma likes_replicate:
  "artist (artworks s i) \<noteq> 0 \<Longrightarrow> succeeded H (is_like i) (replicate n (Like a i)) s = n"
proof (induction n arbitrary: s)
  case 0
  show ?case by simp
next
  case (Suc n)
  from Suc.prems have "artist (artworks (transact H (Like a i) s) i) \<noteq> 0"
    by (simp add: op_defs)
  from Suc.IH [OF this] Suc.prems show ?case
    by (simp add: likeArtwork_def Let_def)
qed

lemma uint256_max_not_small: "uint256_max \<noteq> 1"
  by (simp add: uint256_max_def)

lemma uint256_max_not_two: "uint256_max \<noteq> 2"
  by (simp add: uint256_max_def)

subsection \<open>Category-gated increments\<close>

text \<open>
  C5. \<^verbatim>\<open>voteArtwork\<close> on an existing artwork with a category that is not among the artwork's
  declared categories reverts with "Artwork does not belong to this category", and the
  transaction leaves the storage as it was: every like counter and every vote counter of
  every artwork is unchanged. The hash is taken to have no collision among the category and
  the declared categories.
\<close>

theorem voteArtwork_rejects_undeclared_category:
  assumes "artist (artworks s artworkId) \<noteq> 0"
    and "category \<notin> set (categories (artworks s artworkId))"
    and "inj_on H (insert category (set (categories (artworks s artworkId))))"
  shows "voteArtwork H sender artworkId category s
           = Inl (Revert ''Artwork does not belong to this category'')
       \<and> transact H (Vote sender artworkId category) s = s
       \<and> (\<forall>i. likesEnc (artworks (transact H (Vote sender artworkId category) s) i)
               = likesEnc (artworks s i))
       \<and> (\<forall>i k. votesByArtworkAndCategory (transact H (Vote sender artworkId category) s) i k
               = votesByArtworkAndCategory s i k)"
proof -
  have "H category \<notin> H ` set (categories (artworks s artworkId))"
  proof
    assume "H category \<in> H ` set (categories (artworks s artworkId))"
    then obtain c where c: "c \<in> set (categories (artworks s artworkId))" "H category = H c"
      by blast
    with assms(3) have "category = c"
      by (simp add: inj_on_def)
    with c(1) assms(2) show False
      by simp
  qed
  then have "\<not> belongsToCategory H (categories (artworks s artworkId)) category"
    by (simp add: belongsToCategory_iff)
  with assms(1) have "voteArtwork H sender artworkId category s
      = Inl (Revert ''Artwork does not belong to this category'')"
    by (simp add: voteArtwork_def)
  then show ?thesis
    by (simp add: transact_def)
qed

theorem voteArtwork_rejects_undeclared_category_witness:
  "voteArtwork id 7 1 ''c'' (run id [Upload 5 1700000000 ''E'' ''d'' ''f'' [] [''a'', ''b'']] deployed)
     = Inl (Revert ''Artwork does not belong to this category'')
   \<and> transact id (Vote 7 1 ''c'') (run id [Upload 5 1700000000 ''E'' ''d'' ''f'' [] [''a'', ''b'']] deployed)
     = run id [Upload 5 1700000000 ''E'' ''d'' ''f'' [] [''a'', ''b'']] deployed"
proof -
  let ?s = "run id [Upload 5 1700000000 ''E'' ''d'' ''f'' [] [''a'', ''b'']] deployed :: string gallery"
  have "artist (artworks ?s 1) \<noteq> 0"
    using uint256_max_not_small by (simp add: op_defs deployed_def)
  moreover have "''c'' \<notin> set (categories (artworks ?s 1))"
    using uint256_max_not_small by (simp add: op_defs deployed_def Artwork_default_def)
  moreover have "inj_on (id :: string \<Rightarrow> string) (insert ''c'' (set (categories (artworks ?s 1))))"
    by simp
  ultimately show ?thesis
    using voteArtwork_rejects_undeclared_category [of ?s 1 "''c''" id 7] by blast
qed

subsection \<open>Counters\<close>

lemma vote_value_run:
  "vote_value (run H cs s) i k = vote_value s i k + of_nat (succeeded H (is_vote H i k) cs s)"
  by (induction cs arbitrary: s) (simp_all add: vote_value_transact add.assoc)

lemma FHE_add_votes_deployed:
  "FHE_add (votesByArtworkAndCategory (run H cs deployed) i k) 1
     = Enc (vote_value (run H cs deployed) i k + 1)"
  by (simp add: votes_from_deployed vote_value_run) (simp add: vote_value_def deployed_def)

lemma decrypt_FHE_add:
  "decrypt (FHE_add h 1) = Some (case decrypt h of None \<Rightarrow> 1 | Some a \<Rightarrow> (a + 1) mod 2 ^ 32)"
  by (cases h) (simp_all add: unat_word_ariths)

lemma decrypt_of_nat: "decrypt (Enc (of_nat n)) = Some (n mod 2 ^ 32)"
  by (simp add: unat_of_nat)

text \<open>
  C6, as the code has it. In every storage reached from deployment, the like counter of a
  listed artwork decrypts to the number of successful \<^verbatim>\<open>likeArtwork\<close> calls on it modulo
  \<open>2 ^ 32\<close>; a vote counter is the zero handle while no \<^verbatim>\<open>voteArtwork\<close> call for the pair has
  succeeded, and decrypts to the number of successful ones modulo \<open>2 ^ 32\<close> afterwards. A
  transaction leaves a counter as it is or replaces it by \<^verbatim>\<open>FHE.add(counter, 1)\<close>, and that
  addition wraps: the plaintext \<open>a\<close> becomes \<open>(a + 1) mod 2 ^ 32\<close>, and the uninitialized handle
  becomes an encryption of 1.
\<close>

theorem counters_count_modulo_2_32:
  "(i \<in> set (getAllArtworks (run H cs deployed)) \<longrightarrow>
      decrypt (likesEnc (artworks (run H cs deployed) i))
        = Some (succeeded H (is_like i) cs deployed mod 2 ^ 32)
      \<and> likesEnc (artworks (transact H c (run H cs deployed)) i)
        = (if is_like i c \<and> isl (exec H c (run H cs deployed)) = False
           then FHE_add (likesEnc (artworks (run H cs deployed) i)) 1
           else likesEnc (artworks (run H cs deployed) i)))
   \<and> decrypt (votesByArtworkAndCategory (run H cs deployed) i k)
        = (if succeeded H (is_vote H i k) cs deployed = 0 then None
           else Some (succeeded H (is_vote H i k) cs deployed mod 2 ^ 32))
   \<and> votesByArtworkAndCategory (transact H c (run H cs deployed)) i k
        = (if is_vote H i k c \<and> isl (exec H c (run H cs deployed)) = False
           then FHE_add (votesByArtworkAndCategory (run H cs deployed) i k) 1
           else votesByArtworkAndCategory (run H cs deployed) i k)
   \<and> decrypt (FHE_add h 1) = Some (case decrypt h of None \<Rightarrow> 1 | Some a \<Rightarrow> (a + 1) mod 2 ^ 32)"
proof -
  let ?s = "run H cs deployed"
  have likes: "decrypt (likesEnc (artworks ?s i)) = Some (succeeded H (is_like i) cs deployed mod 2 ^ 32)
      \<and> likesEnc (artworks (transact H c ?s) i)
        = (if is_like i c \<and> isl (exec H c ?s) = False
           then FHE_add (likesEnc (artworks ?s i)) 1 else likesEnc (artworks ?s i))"
    if "i \<in> set (getAllArtworks ?s)"
  proof -
    have "listing_ok ?s"
      by (intro listing_ok_run listing_ok_deployed)
    with that have alloc: "i \<noteq> 0" "i < nextArtworkId ?s"
      by (auto simp add: listing_ok_def getAllArtworks_def)
    then have "likesEnc (artworks ?s i) = Enc (of_nat (succeeded H (is_like i) cs deployed))"
      by (rule likes_from_deployed)
    then have "decrypt (likesEnc (artworks ?s i)) = Some (succeeded H (is_like i) cs deployed mod 2 ^ 32)"
      by (simp only: decrypt_of_nat)
    with alloc(2) show ?thesis
      by (simp only: likes_transact)
  qed
  have votes: "decrypt (votesByArtworkAndCategory ?s i k)
        = (if succeeded H (is_vote H i k) cs deployed = 0 then None
           else Some (succeeded H (is_vote H i k) cs deployed mod 2 ^ 32))"
    by (simp add: votes_from_deployed unat_of_nat)
  have vstep: "votesByArtworkAndCategory (transact H c ?s) i k
        = (if is_vote H i k c \<and> isl (exec H c ?s) = False
           then FHE_add (votesByArtworkAndCategory ?s i k) 1
           else votesByArtworkAndCategory ?s i k)"
    by (simp only: votes_transact FHE_add_votes_deployed)
  from likes votes vstep decrypt_FHE_add [of h] show ?thesis
    by blast
qed

theorem counters_count_modulo_2_32_witness:
  "decrypt (likesEnc (artworks
      (run id [Upload 5 1700000000 ''E'' ''d'' ''f'' [] [''a'', ''b''], Like 7 1, Like 8 1, Like 7 1,
               Vote 7 1 ''a'', Vote 8 1 ''a''] deployed :: string gallery) 1)) = Some 3
   \<and> decrypt (votesByArtworkAndCategory
      (run id [Upload 5 1700000000 ''E'' ''d'' ''f'' [] [''a'', ''b''], Like 7 1, Like 8 1, Like 7 1,
               Vote 7 1 ''a'', Vote 8 1 ''a''] deployed :: string gallery) 1 ''a'') = Some 2
   \<and> decrypt (votesByArtworkAndCategory
      (run id [Upload 5 1700000000 ''E'' ''d'' ''f'' [] [''a'', ''b''], Like 7 1, Like 8 1, Like 7 1,
               Vote 7 1 ''a'', Vote 8 1 ''a''] deployed :: string gallery) 1 ''b'') = None"
proof -
  let ?cs = "[Upload 5 1700000000 ''E'' ''d'' ''f'' [] [''a'', ''b''], Like 7 1, Like 8 1, Like 7 1,
               Vote 7 1 ''a'', Vote 8 1 ''a'']"
  let ?s = "run id ?cs deployed :: string gallery"
  have listed: "1 \<in> set (getAllArtworks ?s)"
    using uint256_max_not_small by (simp add: op_defs deployed_def getAllArtworks_def)
  have n_likes: "succeeded id (is_like 1) ?cs (deployed :: string gallery) = 3"
    using uint256_max_not_small by (simp add: op_defs deployed_def)
  have n_a: "succeeded id (is_vote id 1 ''a'') ?cs (deployed :: string gallery) = 2"
    using uint256_max_not_small by (simp add: op_defs deployed_def Artwork_default_def)
  have n_b: "succeeded id (is_vote id 1 ''b'') ?cs (deployed :: string gallery) = 0"
    using uint256_max_not_small by (simp add: op_defs deployed_def)
  from counters_count_modulo_2_32 [of 1 id ?cs "Like 7 1" "''a''" ZeroHandle] listed
  have "decrypt (likesEnc (artworks ?s 1)) = Some (succeeded id (is_like 1) ?cs deployed mod 2 ^ 32)"
    and "decrypt (votesByArtworkAndCategory ?s 1 ''a'')
        = (if succeeded id (is_vote id 1 ''a'') ?cs deployed = 0 then None
           else Some (succeeded id (is_vote id 1 ''a'') ?cs deployed mod 2 ^ 32))"
    by blast+
  moreover from counters_count_modulo_2_32 [of 1 id ?cs "Like 7 1" "''b''" ZeroHandle]
  have "decrypt (votesByArtworkAndCategory ?s 1 ''b'')
        = (if succeeded id (is_vote id 1 ''b'') ?cs deployed = 0 then None
           else Some (succeeded id (is_vote id 1 ''b'') ?cs deployed mod 2 ^ 32))"
    by blast
  ultimately show ?thesis
    unfolding n_likes n_a n_b by simp
qed

text \<open>The trace of one upload followed by \<open>n\<close> likes of the new artwork.\<close>

lemma likes_after_upload:
  "succeeded H (is_like 1) (Upload 5 0 [] [] [] [] [] # replicate n (Like 7 1)) deployed = n
   \<and> likesEnc (artworks (run H (Upload 5 0 [] [] [] [] [] # replicate n (Like 7 1)) deployed) 1)
       = Enc (of_nat n)"
proof -
  let ?s1 = "transact H (Upload 5 0 [] [] [] [] []) deployed"
  have ex: "artist (artworks ?s1 1) \<noteq> 0"
    using uint256_max_not_small by (simp add: op_defs deployed_def)
  have al: "1 < nextArtworkId ?s1"
    using uint256_max_not_small by (simp add: op_defs deployed_def)
  have z: "likesEnc (artworks ?s1 1) = Enc 0"
    using uint256_max_not_small by (simp add: op_defs deployed_def FHE_asEuint32_def)
  have n: "succeeded H (is_like 1) (replicate n (Like 7 1)) ?s1 = n"
    using ex by (rule likes_replicate)
  from likes_allocated [OF al z, of H "replicate n (Like 7 1)"] n show ?thesis
    by simp
qed

text \<open>
  C6, as stated, fails: after \<open>2 ^ 32\<close> successful likes the counter decrypts to 0, having
  stood at \<open>2 ^ 32 - 1\<close> one like earlier.
\<close>

theorem likes_counter_wraps_counterexample:
  "succeeded id (is_like 1) (Upload 5 0 [] [] [] [] [] # replicate (2 ^ 32) (Like 7 1))
      (deployed :: string gallery) = 2 ^ 32
   \<and> decrypt (likesEnc (artworks
        (run id (Upload 5 0 [] [] [] [] [] # replicate (2 ^ 32) (Like 7 1))
           (deployed :: string gallery)) 1)) = Some 0
   \<and> decrypt (likesEnc (artworks
        (run id (Upload 5 0 [] [] [] [] [] # replicate (2 ^ 32 - 1) (Like 7 1))
           (deployed :: string gallery)) 1)) = Some (2 ^ 32 - 1)"
proof -
  have a: "decrypt (Enc (of_nat (2 ^ 32))) = Some 0"
    by simp
  have b: "decrypt (Enc (of_nat (2 ^ 32 - 1))) = Some (2 ^ 32 - 1)"
    by simp
  from likes_after_upload [of id "2 ^ 32"] likes_after_upload [of id "2 ^ 32 - 1"] a b
  show ?thesis
    by (simp only:) 
qed

lemma categories_transact:
  "i < nextArtworkId s \<Longrightarrow> categories (artworks (transact H c s) i) = categories (artworks s i)"
  by (cases c) (auto simp add: op_defs)

lemma categories_run:
  "i < nextArtworkId s \<Longrightarrow> categories (artworks (run H cs s) i) = categories (artworks s i)"
proof (induction cs arbitrary: s)
  case Nil
  show ?case by simp
next
  case (Cons c cs)
  from Cons.prems nextArtworkId_transact [of s H c] have "i < nextArtworkId (transact H c s)"
    by simp
  from Cons.IH [OF this] Cons.prems show ?case
    by (simp add: categories_transact)
qed

lemma vote_counted_declared:
  "inj H \<Longrightarrow> is_vote H i (H category) c \<Longrightarrow> isl (exec H c s) = False \<Longrightarrow>
   artist (artworks s i) \<noteq> 0 \<and> category \<in> set (categories (artworks s i))"
  by (cases c) (auto simp add: voteArtwork_def Let_def belongsToCategory_iff dest: injD split: if_splits)

lemma undeclared_never_counted:
  "inj H \<Longrightarrow> fresh_above s \<Longrightarrow> category \<notin> set (categories (artworks (run H cs s) i)) \<Longrightarrow>
   succeeded H (is_vote H i (H category)) cs s = 0"
proof (induction cs arbitrary: s)
  case Nil
  show ?case by simp
next
  case (Cons c cs)
  have "\<not> (is_vote H i (H category) c \<and> isl (exec H c s) = False)"
  proof
    assume counted: "is_vote H i (H category) c \<and> isl (exec H c s) = False"
    with Cons.prems(1) have ex: "artist (artworks s i) \<noteq> 0"
      and decl: "category \<in> set (categories (artworks s i))"
      using vote_counted_declared [of H i category c s] by simp_all
    from ex Cons.prems(2) have "i < nextArtworkId s"
      by (auto simp add: fresh_above_def Artwork_default_def not_le [symmetric])
    then have "categories (artworks (run H (c # cs) s) i) = categories (artworks s i)"
      by (rule categories_run)
    with decl Cons.prems(3) show False by simp
  qed
  moreover from Cons.prems have "succeeded H (is_vote H i (H category)) cs (transact H c s) = 0"
    by (intro Cons.IH fresh_above_transact) simp_all
  ultimately show ?case by simp
qed

lemma unknown_id_unallocated:
  "listing_ok s \<Longrightarrow> i \<notin> set (artworkIds s) \<Longrightarrow> i = 0 \<or> nextArtworkId s \<le> i"
  by (auto simp add: listing_ok_def)

subsection \<open>Read accessors\<close>

text \<open>
  C9. \<^verbatim>\<open>getVotes\<close> has no failing path: for every storage, id and category it returns the
  stored handle. In every storage reached from deployment that handle is the zero handle
  when no vote for the pair has succeeded, in particular for an id that was never created and
  for a category outside the artwork's declared categories (the hash having no collisions);
  \<^verbatim>\<open>getArtwork\<close>, in contrast, reverts with "Artwork not found" for an id that is not listed.
\<close>

theorem getVotes_never_fails:
  "getVotes H s artworkId category = Inr (votesByArtworkAndCategory s artworkId (H category))
   \<and> (succeeded H (is_vote H artworkId (H category)) cs deployed = 0 \<longrightarrow>
        getVotes H (run H cs deployed) artworkId category = Inr ZeroHandle)
   \<and> (artworkId \<notin> set (getAllArtworks (run H cs deployed)) \<longrightarrow>
        getVotes H (run H cs deployed) artworkId category = Inr ZeroHandle
        \<and> getArtwork (run H cs deployed) artworkId = Inl (Revert ''Artwork not found''))
   \<and> (inj H \<and> category \<notin> set (categories (artworks (run H cs deployed) artworkId)) \<longrightarrow>
        getVotes H (run H cs deployed) artworkId category = Inr ZeroHandle)"
proof -
  let ?s = "run H cs deployed"
  have total: "getVotes H s' artworkId category
      = Inr (votesByArtworkAndCategory s' artworkId (H category))" for s' :: "'a gallery"
    by (simp add: getVotes_def)
  have zero: "getVotes H ?s artworkId category = Inr ZeroHandle"
    if "succeeded H (is_vote H artworkId (H category)) cs deployed = 0"
    using that by (simp add: total votes_from_deployed)
  have unknown: "getVotes H ?s artworkId category = Inr ZeroHandle
      \<and> getArtwork ?s artworkId = Inl (Revert ''Artwork not found'')"
    if "artworkId \<notin> set (getAllArtworks ?s)"
  proof -
    have "listing_ok ?s"
      by (intro listing_ok_run listing_ok_deployed)
    with that have un: "artworkId = 0 \<or> nextArtworkId ?s \<le> artworkId"
      by (simp add: getAllArtworks_def unknown_id_unallocated)
    have fresh: "fresh_above ?s"
      by (intro fresh_above_run fresh_above_deployed)
    with un have "artworks ?s artworkId = Artwork_default"
      by (auto simp add: fresh_above_def)
    then have "getArtwork ?s artworkId = Inl (Revert ''Artwork not found'')"
      by (simp add: getArtwork_def Artwork_default_def)
    moreover from un have "succeeded H (is_vote H artworkId (H category)) cs deployed = 0"
      by (intro votes_unallocated fresh_above_deployed)
    ultimately show ?thesis
      using zero by simp
  qed
  have undeclared: "getVotes H ?s artworkId category = Inr ZeroHandle"
    if "inj H \<and> category \<notin> set (categories (artworks ?s artworkId))"
    using that by (intro zero undeclared_never_counted fresh_above_deployed) simp_all
  from total [of s] zero unknown undeclared show ?thesis
    by blast
qed

theorem getVotes_never_fails_witness:
  "getVotes id (run id [Upload 5 1700000000 ''E'' ''d'' ''f'' [] [''a'', ''b'']] deployed) 9 ''z''
     = Inr ZeroHandle
   \<and> getArtwork (run id [Upload 5 1700000000 ''E'' ''d'' ''f'' [] [''a'', ''b'']] deployed :: string gallery) 9
     = Inl (Revert ''Artwork not found'')
   \<and> getVotes id (run id [Upload 5 1700000000 ''E'' ''d'' ''f'' [] [''a'', ''b'']] deployed) 1 ''c''
     = Inr ZeroHandle
   \<and> getVotes id (run id [Upload 5 1700000000 ''E'' ''d'' ''f'' [] [''a'', ''b'']] deployed) 1 ''b''
     = Inr ZeroHandle"
proof -
  let ?cs = "[Upload 5 1700000000 ''E'' ''d'' ''f'' [] [''a'', ''b'']]"
  let ?s = "run id ?cs deployed :: string gallery"
  have "9 \<notin> set (getAllArtworks ?s)"
    using uint256_max_not_small by (simp add: op_defs deployed_def getAllArtworks_def)
  moreover have "inj (id :: string \<Rightarrow> string) \<and> ''c'' \<notin> set (categories (artworks ?s 1))"
    using uint256_max_not_small by (simp add: op_defs deployed_def Artwork_default_def)
  moreover have "succeeded id (is_vote id 1 (id ''b'')) ?cs (deployed :: string gallery) = 0"
    by simp
  ultimately show ?thesis
    using getVotes_never_fails [of id ?s 9 "''z''" ?cs]
      getVotes_never_fails [of id ?s 1 "''c''" ?cs]
      getVotes_never_fails [of id ?s 1 "''b''" ?cs]
    by blast
qed

subsection \<open>Ids and the listing\<close>

text \<open>
  C10. The first id is 1. In every storage reached from deployment by transactions whose
  senders are not the zero address, \<^verbatim>\<open>getAllArtworks\<close> returns exactly the ids from 1 up to
  \<^verbatim>\<open>nextArtworkId - 1\<close>, in increasing order, which is the order of creation since every
  successful \<^verbatim>\<open>uploadArtwork\<close> takes the id \<^verbatim>\<open>nextArtworkId\<close>, increments it and appends the id
  to the listing; and \<^verbatim>\<open>getArtwork\<close> succeeds for every listed id.
\<close>

theorem listing_is_sequential:
  assumes "\<forall>c \<in> set cs. call_sender c \<noteq> 0"
  shows "nextArtworkId (deployed :: 'h gallery) = 1
     \<and> getAllArtworks (run H cs deployed) = [1..<nextArtworkId (run H cs deployed)]
     \<and> (\<forall>i \<in> set (getAllArtworks (run H cs deployed)).
           \<exists>r. getArtwork (run H cs deployed) i = Inr r)
     \<and> (\<forall>sender ts t d f tg cats i s'.
           uploadArtwork sender ts t d f tg cats (run H cs deployed) = Inr (i, s') \<longrightarrow>
             i = nextArtworkId (run H cs deployed) \<and> nextArtworkId s' = i + 1
             \<and> getAllArtworks s' = getAllArtworks (run H cs deployed) @ [i])"
proof -
  let ?s = "run H cs deployed"
  have first: "nextArtworkId (deployed :: 'h gallery) = 1"
    by (simp add: deployed_def)
  have "listing_ok ?s"
    by (intro listing_ok_run listing_ok_deployed)
  then have listing: "getAllArtworks ?s = [1..<nextArtworkId ?s]"
    by (simp add: listing_ok_def getAllArtworks_def)
  have "all_exist ?s"
    using assms by (intro all_exist_run all_exist_deployed)
  with listing have found: "\<exists>r. getArtwork ?s i = Inr r" if "i \<in> set (getAllArtworks ?s)" for i
    using that by (simp add: all_exist_def getArtwork_def Let_def)
  have upload: "i = nextArtworkId ?s \<and> nextArtworkId s' = i + 1
      \<and> getAllArtworks s' = getAllArtworks ?s @ [i]"
    if "uploadArtwork sender ts t d f tg cats ?s = Inr (i, s')" for sender ts t d f tg cats i s'
    using that by (auto simp add: uploadArtwork_def Let_def getAllArtworks_def split: if_splits)
  from first listing found upload show ?thesis
    by blast
qed

theorem listing_is_sequential_witness:
  "getAllArtworks
     (run id [Upload 5 1700000000 ''E'' ''d'' ''f'' [] [''a'', ''b''], Like 7 1,
              Upload 6 1700000001 ''F'' ''d'' ''f'' [] []] deployed :: string gallery) = [1, 2]
   \<and> (\<exists>r. getArtwork
         (run id [Upload 5 1700000000 ''E'' ''d'' ''f'' [] [''a'', ''b''], Like 7 1,
                  Upload 6 1700000001 ''F'' ''d'' ''f'' [] []] deployed :: string gallery) 2 = Inr r)"
proof -
  let ?cs = "[Upload 5 1700000000 ''E'' ''d'' ''f'' [] [''a'', ''b''], Like 7 1,
              Upload 6 1700000001 ''F'' ''d'' ''f'' [] []]"
  let ?s = "run id ?cs deployed :: string gallery"
  have senders: "\<forall>c \<in> set ?cs. call_sender c \<noteq> 0"
    by simp
  have next3: "nextArtworkId ?s = 3"
    using uint256_max_not_small uint256_max_not_two by (simp add: op_defs deployed_def)
  have upt: "[1..<3] = [1, 2::nat]"
    by (simp add: upt_rec)
  from listing_is_sequential [OF senders, of id]
  have listing: "getAllArtworks ?s = [1..<nextArtworkId ?s]"
    and found: "\<forall>i \<in> set (getAllArtworks ?s). \<exists>r. getArtwork ?s i = Inr r"
    by blast+
  have l2: "getAllArtworks ?s = [1, 2]"
    unfolding listing next3 upt ..
  have "2 \<in> set (getAllArtworks ?s)"
    unfolding l2 by simp
  with found have "\<exists>r. getArtwork ?s 2 = Inr r"
    by blast
  with l2 show ?thesis
    by blast
qed

section \<open>Properties of the encryption runtime\<close>

subsection \<open>The network resolver\<close>

text \<open>
  C8. When the transport answers the chain id query, \<^verbatim>\<open>resolve\<close> returns a classification
  carrying that chain id, which is emulated exactly when the chain id is a key of the map
  obtained by merging the built-in entry for 31337 with the caller's override map (the
  override winning on 31337); an emulated classification carries an endpoint, the
  transport's own URL when it is a non-empty string and the entry of the map otherwise. Chain
  id 31337 is emulated whatever override map is given, none included.
\<close>

theorem resolve_classifies:
  assumes "g providerOrUrl = Inr cid"
  shows "\<exists>r. resolve g providerOrUrl mockChains = Inr r \<and> chainId r = cid
      \<and> (isMock r \<longleftrightarrow> cid \<in> dom (merged_mockChains mockChains))
      \<and> (isMock r \<longrightarrow>
            (\<exists>entry. merged_mockChains mockChains cid = Some entry
               \<and> rpcUrl r = Some (case providerOrUrl of
                                     Url u \<Rightarrow> if u = [] then entry else u
                                   | Provider _ \<Rightarrow> entry)))
      \<and> (\<not> isMock r \<longrightarrow>
            rpcUrl r = (case providerOrUrl of Url u \<Rightarrow> Some u | Provider _ \<Rightarrow> None))
      \<and> (cid = 31337 \<longrightarrow> isMock r)
      \<and> merged_mockChains None 31337 = Some ''http://localhost:8545''
      \<and> merged_mockChains mockChains =
          (\<lambda>k. case (case mockChains of None \<Rightarrow> None | Some m \<Rightarrow> m k) of
                 Some v \<Rightarrow> Some v
               | None \<Rightarrow> if k = 31337 then Some ''http://localhost:8545'' else None)"
proof -
  have merged: "merged_mockChains mockChains =
          (\<lambda>k. case (case mockChains of None \<Rightarrow> None | Some m \<Rightarrow> m k) of
                 Some v \<Rightarrow> Some v
               | None \<Rightarrow> if k = 31337 then Some ''http://localhost:8545'' else None)"
    by (auto simp add: merged_mockChains_def map_add_def fun_eq_iff split: option.splits)
  have default: "merged_mockChains None 31337 = Some ''http://localhost:8545''"
    by (simp add: merged_mockChains_def)
  have local: "merged_mockChains mockChains 31337 \<noteq> None"
    by (simp add: merged split: option.splits)
  show ?thesis
  proof (cases "merged_mockChains mockChains cid")
    case None
    with assms local have "resolve g providerOrUrl mockChains
        = Inr (NotMock cid (case providerOrUrl of Url u \<Rightarrow> Some u | Provider _ \<Rightarrow> None))"
      by (simp add: resolve_def)
    with None local merged default show ?thesis
      by (auto simp add: domIff)
  next
    case (Some entry)
    with assms have "resolve g providerOrUrl mockChains
        = Inr (Mock cid (case providerOrUrl of
                           Url u \<Rightarrow> if u = [] then entry else u | Provider _ \<Rightarrow> entry))"
      by (cases providerOrUrl) (simp_all add: resolve_def)
    with Some merged default show ?thesis
      by (auto simp add: domIff)
  qed
qed

theorem resolve_classifies_witness:
  "\<exists>r. resolve (\<lambda>_. Inr 31337) (Provider ()) None = Inr r \<and> chainId r = 31337 \<and> isMock r
      \<and> rpcUrl r = Some ''http://localhost:8545''"
proof -
  from resolve_classifies [where g = "\<lambda>_. Inr 31337" and providerOrUrl = "Provider ()"
      and cid = 31337 and mockChains = None]
  obtain r where "resolve (\<lambda>_. Inr 31337) (Provider ()) None = Inr r" "chainId r = 31337" "isMock r"
      "\<exists>entry. merged_mockChains None 31337 = Some entry \<and> rpcUrl r = Some entry"
    by auto
  moreover have "merged_mockChains None 31337 = Some ''http://localhost:8545''"
    by (simp add: merged_mockChains_def)
  ultimately show ?thesis
    by auto
qed

subsection \<open>The engine loader\<close>

text \<open>
  C3, as stated, fails: with a falsy value, or an object without \<^verbatim>\<open>initSDK\<close> and
  \<^verbatim>\<open>createInstance\<close>, stored under the key, \<^verbatim>\<open>load\<close> resolves without fetching and without an
  error.
\<close>

theorem load_accepts_malformed_counterexample:
  "load (\<lambda>_. OnError)
     \<lparr>relayerSDK = Some Falsy, script_fetches = [], initSDK_calls = 0, notified = []\<rparr>
   = (Inr (), \<lparr>relayerSDK = Some Falsy, script_fetches = [], initSDK_calls = 0, notified = []\<rparr>)
   \<and> load (\<lambda>_. OnError)
     \<lparr>relayerSDK = Some (Sdk False False), script_fetches = [], initSDK_calls = 0, notified = []\<rparr>
   = (Inr (), \<lparr>relayerSDK = Some (Sdk False False), script_fetches = [], initSDK_calls = 0,
               notified = []\<rparr>)"
  by (simp add: load_def)

text \<open>
  C3, as the code has it. \<^verbatim>\<open>load\<close> returns without fetching whenever the key
  \<^verbatim>\<open>relayerSDK\<close> is present in the namespace, whatever is stored under it. When the key is
  absent it appends one script element for the fixed distribution URL; it fails with
  "Failed to load" and that URL when the script errors, and succeeds, with whatever the
  script installed, when the script loads.
\<close>

theorem load_checks_presence_only:
  "(relayerSDK w \<noteq> None \<longrightarrow> load fetch w = (Inr (), w))
   \<and> (relayerSDK w = None \<longrightarrow>
        script_fetches (snd (load fetch w)) = script_fetches w @ [SDK_CDN_URL]
        \<and> (fetch SDK_CDN_URL = OnError \<longrightarrow>
              fst (load fetch w) = Inl (Error (''Failed to load '' @ SDK_CDN_URL))
              \<and> relayerSDK (snd (load fetch w)) = None)
        \<and> (\<forall>installed. fetch SDK_CDN_URL = OnLoad installed \<longrightarrow>
              fst (load fetch w) = Inr () \<and> relayerSDK (snd (load fetch w)) = installed))"
  by (auto simp add: load_def Let_def split: script_outcome.splits)

theorem load_checks_presence_only_witness:
  "load (\<lambda>_. OnError) example_world = (Inr (), example_world)
   \<and> script_fetches (snd (load (\<lambda>_. OnError) (example_world\<lparr>relayerSDK := None\<rparr>))) = [SDK_CDN_URL]
   \<and> fst (load (\<lambda>_. OnError) (example_world\<lparr>relayerSDK := None\<rparr>))
       = Inl (Error (''Failed to load '' @ SDK_CDN_URL))
   \<and> fst (load (\<lambda>_. OnLoad (Some (Sdk True True))) (example_world\<lparr>relayerSDK := None\<rparr>)) = Inr ()
   \<and> relayerSDK (snd (load (\<lambda>_. OnLoad (Some (Sdk True True))) (example_world\<lparr>relayerSDK := None\<rparr>)))
       = Some (Sdk True True)"
proof -
  have present: "relayerSDK example_world \<noteq> None"
    and absent: "relayerSDK (example_world\<lparr>relayerSDK := None\<rparr>) = None"
    and empty: "script_fetches (example_world\<lparr>relayerSDK := None\<rparr>) = []"
    by (simp_all add: example_world_def)
  from load_checks_presence_only [of example_world "\<lambda>_. OnError"] present
  have "load (\<lambda>_. OnError) example_world = (Inr (), example_world)"
    by blast
  moreover
  from load_checks_presence_only [of "example_world\<lparr>relayerSDK := None\<rparr>" "\<lambda>_. OnError"] absent empty
  have "script_fetches (snd (load (\<lambda>_. OnError) (example_world\<lparr>relayerSDK := None\<rparr>))) = [SDK_CDN_URL]
     \<and> fst (load (\<lambda>_. OnError) (example_world\<lparr>relayerSDK := None\<rparr>))
       = Inl (Error (''Failed to load '' @ SDK_CDN_URL))"
    by simp
  moreover
  from load_checks_presence_only [of "example_world\<lparr>relayerSDK := None\<rparr>"
      "\<lambda>_. OnLoad (Some (Sdk True True))"] absent
  have "fst (load (\<lambda>_. OnLoad (Some (Sdk True True))) (example_world\<lparr>relayerSDK := None\<rparr>)) = Inr ()
     \<and> relayerSDK (snd (load (\<lambda>_. OnLoad (Some (Sdk True True))) (example_world\<lparr>relayerSDK := None\<rparr>)))
       = Some (Sdk True True)"
    by simp
  ultimately show ?thesis
    by blast
qed

subsection \<open>The initialization entry point\<close>

lemma create_step_calls: "initSDK_calls (snd (create_step env p sig w)) = initSDK_calls w"
  by (simp add: create_step_def notify_def Let_def
      split: option.splits sdk_value.splits bool.splits sum.splits)

lemma init_step_calls:
  "initSDK_calls (snd (init_step env p sig w)) =
     (case relayerSDK w of Some (Sdk True _) \<Rightarrow> initSDK_calls w + 1 | _ \<Rightarrow> initSDK_calls w)"
  by (simp add: init_step_def notify_def Let_def create_step_calls
      split: option.splits sdk_value.splits bool.splits sum.splits)

lemma load_calls: "initSDK_calls (snd (load fetch w)) = initSDK_calls w"
  by (simp add: load_def Let_def split: script_outcome.splits)

lemma load_step_present:
  "relayerSDK w = Some (Sdk True b) \<Longrightarrow>
   initSDK_calls (snd (load_step env p sig w)) = initSDK_calls w + 1"
  by (simp add: load_step_def init_step_calls)

lemma load_step_bounds:
  "initSDK_calls w \<le> initSDK_calls (snd (load_step env p sig w))
   \<and> initSDK_calls (snd (load_step env p sig w)) \<le> initSDK_calls w + 1"
proof (cases "load (script env) (notify sdk_loading w)")
  case (Pair r w1)
  with load_calls [of "script env" "notify sdk_loading w"]
  have "initSDK_calls w1 = initSDK_calls w"
    by (simp add: notify_def)
  with Pair show ?thesis
    by (simp add: load_step_def init_step_calls notify_def
        split: option.splits sdk_value.splits bool.splits sum.splits)
qed


text \<open>
  C4, as the code has it. One run of \<^verbatim>\<open>createFhevmInstance\<close> calls \<^verbatim>\<open>initSDK\<close> at most once.
  With a well-formed engine object installed, a run on a remote chain, and a run on an
  emulated chain whose probe does not yield an instance, call it exactly once, however many
  calls were made before; a run the probe serves returns the mock instance and leaves the
  process as it was.
\<close>

theorem initSDK_called_by_every_production_run:
  "initSDK_calls w \<le> initSDK_calls (snd (createFhevmInstance env p mockChains sig w))
   \<and> initSDK_calls (snd (createFhevmInstance env p mockChains sig w)) \<le> initSDK_calls w + 1
   \<and> (relayerSDK w = Some (Sdk True b)
        \<and> resolve (getChainId env) p mockChains = Inr (NotMock cid url) \<longrightarrow>
        initSDK_calls (snd (createFhevmInstance env p mockChains sig w)) = initSDK_calls w + 1)
   \<and> (relayerSDK w = Some (Sdk True b)
        \<and> resolve (getChainId env) p mockChains = Inr (Mock cid url')
        \<and> mock_probe env url' cid = None \<longrightarrow>
        initSDK_calls (snd (createFhevmInstance env p mockChains sig w)) = initSDK_calls w + 1)
   \<and> (resolve (getChainId env) p mockChains = Inr (Mock cid url')
        \<and> mock_probe env url' cid = Some i \<longrightarrow>
        createFhevmInstance env p mockChains sig w = (Inr i, w))"
proof -
  have bounds: "initSDK_calls w \<le> initSDK_calls (snd (createFhevmInstance env p mockChains sig w))
   \<and> initSDK_calls (snd (createFhevmInstance env p mockChains sig w)) \<le> initSDK_calls w + 1"
    using load_step_bounds [of w env p sig]
    by (simp add: createFhevmInstance_def split: sum.splits ResolveResult.splits option.splits)
  have remote: "initSDK_calls (snd (createFhevmInstance env p mockChains sig w)) = initSDK_calls w + 1"
    if "relayerSDK w = Some (Sdk True b) \<and> resolve (getChainId env) p mockChains = Inr (NotMock cid url)"
    using that by (simp add: createFhevmInstance_def load_step_present)
  have fallthrough: "initSDK_calls (snd (createFhevmInstance env p mockChains sig w)) = initSDK_calls w + 1"
    if "relayerSDK w = Some (Sdk True b) \<and> resolve (getChainId env) p mockChains = Inr (Mock cid url')
        \<and> mock_probe env url' cid = None"
    using that by (simp add: createFhevmInstance_def load_step_present)
  have served: "createFhevmInstance env p mockChains sig w = (Inr i, w)"
    if "resolve (getChainId env) p mockChains = Inr (Mock cid url') \<and> mock_probe env url' cid = Some i"
    using that by (simp add: createFhevmInstance_def)
  from bounds remote fallthrough served show ?thesis
    by blast
qed

lemma example_resolve:
  "resolve (getChainId example_env) (Provider ()) None = Inr (NotMock 11155111 None)"
  by (simp add: resolve_def example_env_def merged_mockChains_def)

lemma example_create:
  "relayerSDK w = Some (Sdk True True) \<Longrightarrow>
   createFhevmInstance example_env (Provider ()) None never_aborted w
     = (Inr 42, w\<lparr>initSDK_calls := initSDK_calls w + 1,
                  notified := notified w @ [sdk_initializing, sdk_initialized, creating]\<rparr>)"
  by (simp add: createFhevmInstance_def example_resolve)
     (simp add: load_step_def init_step_def create_step_def notify_def never_aborted_def
        example_env_def)

lemma example_activate:
  "relayerSDK w = Some (Sdk True True) \<Longrightarrow> \<not> initializingRef c \<Longrightarrow>
   activate example_env True (Some ()) None (c, w)
     = (c\<lparr>status_cell := ready, error_cell := None, instance_cell := Some 42\<rparr>,
        w\<lparr>initSDK_calls := initSDK_calls w + 1,
          notified := notified w @ [sdk_initializing, sdk_initialized, creating]\<rparr>)"
  by (simp add: activate_def effect_def example_create settle_def)

lemma lower_hardhat: "toLowerCase ''HardhatNetwork/2.22.0'' = ''hardhatnetwork/2.22.0''"
  by code_simp

lemma local_resolve:
  "resolve (getChainId (example_env\<lparr>getChainId := (\<lambda>_. Inr 31337)\<rparr>)) (Provider ()) None
     = Inr (Mock 31337 ''http://localhost:8545'')"
  by (simp add: resolve_def merged_mockChains_def)

lemma hardhat_probe:
  "mock_probe (example_env\<lparr>getChainId := (\<lambda>_. Inr 31337),
        getWeb3Client := (\<lambda>_. Inr (Some ''HardhatNetwork/2.22.0'')),
        getFHEVMRelayerMetadata := (\<lambda>_. Inr (Some \<lparr>ACLAddress = ''0xA'',
           InputVerifierAddress = ''0xB'', KMSVerifierAddress = ''0xC''\<rparr>)),
        fhevmMockCreateInstance := (\<lambda>_ _ _. Inr 7)\<rparr>) ''http://localhost:8545'' 31337 = Some 7"
  by (simp add: mock_probe_def lower_hardhat)

lemma local_probe:
  "mock_probe (example_env\<lparr>getChainId := (\<lambda>_. Inr 31337)\<rparr>) ''http://localhost:8545'' 31337 = None"
  by (simp add: mock_probe_def example_env_def)

theorem initSDK_called_by_every_production_run_witness:
  "initSDK_calls (snd (createFhevmInstance example_env (Provider ()) None never_aborted
      (example_world\<lparr>initSDK_calls := 1\<rparr>))) = 2
   \<and> initSDK_calls (snd (createFhevmInstance (example_env\<lparr>getChainId := (\<lambda>_. Inr 31337)\<rparr>)
      (Provider ()) None never_aborted (example_world\<lparr>initSDK_calls := 1\<rparr>))) = 2
   \<and> createFhevmInstance
        (example_env\<lparr>getChainId := (\<lambda>_. Inr 31337),
           getWeb3Client := (\<lambda>_. Inr (Some ''HardhatNetwork/2.22.0'')),
           getFHEVMRelayerMetadata := (\<lambda>_. Inr (Some \<lparr>ACLAddress = ''0xA'',
              InputVerifierAddress = ''0xB'', KMSVerifierAddress = ''0xC''\<rparr>)),
           fhevmMockCreateInstance := (\<lambda>_ _ _. Inr 7)\<rparr>)
        (Provider ()) None never_aborted (example_world\<lparr>initSDK_calls := 1\<rparr>)
      = (Inr 7, example_world\<lparr>initSDK_calls := 1\<rparr>)"
proof -
  let ?w = "example_world\<lparr>initSDK_calls := 1\<rparr>"
  let ?local = "example_env\<lparr>getChainId := (\<lambda>_. Inr 31337)\<rparr>"
  let ?hardhat = "example_env\<lparr>getChainId := (\<lambda>_. Inr 31337),
           getWeb3Client := (\<lambda>_. Inr (Some ''HardhatNetwork/2.22.0'')),
           getFHEVMRelayerMetadata := (\<lambda>_. Inr (Some \<lparr>ACLAddress = ''0xA'',
              InputVerifierAddress = ''0xB'', KMSVerifierAddress = ''0xC''\<rparr>)),
           fhevmMockCreateInstance := (\<lambda>_ _ _. Inr 7)\<rparr>"
  have w: "relayerSDK ?w = Some (Sdk True True)" "initSDK_calls ?w = 1"
    by (simp_all add: example_world_def)
  have "resolve (getChainId ?hardhat) (Provider ()) None = Inr (Mock 31337 ''http://localhost:8545'')"
    by (simp add: resolve_def merged_mockChains_def)
  with initSDK_called_by_every_production_run [of ?w example_env "Provider ()" None never_aborted True
      11155111 None] 
    initSDK_called_by_every_production_run [of ?w ?local "Provider ()" None never_aborted True
      31337 None "''http://localhost:8545''"]
    initSDK_called_by_every_production_run [of ?w ?hardhat "Provider ()" None never_aborted True
      31337 None "''http://localhost:8545''" 7]
    w example_resolve local_resolve local_probe hardhat_probe
  show ?thesis
    by simp
qed

text \<open>
  C4, as stated, fails: two activations in a row on a remote chain, both successful, call
  \<^verbatim>\<open>initSDK\<close> twice.
\<close>

theorem initSDK_not_memoized_counterexample:
  "status_cell (fst (activate example_env True (Some ()) None (mounted, example_world))) = ready
   \<and> initSDK_calls (snd (activate example_env True (Some ()) None (mounted, example_world))) = 1
   \<and> initSDK_calls (snd (activate example_env True (Some ()) None
        (activate example_env True (Some ()) None (mounted, example_world)))) = 2"
proof -
  let ?c1 = "mounted\<lparr>status_cell := ready, error_cell := None, instance_cell := Some 42\<rparr> :: nat controller"
  let ?w1 = "example_world\<lparr>initSDK_calls := initSDK_calls example_world + 1,
          notified := notified example_world @ [sdk_initializing, sdk_initialized, creating]\<rparr>"
  have first: "activate example_env True (Some ()) None (mounted, example_world) = (?c1, ?w1)"
    by (rule example_activate) (simp_all add: example_world_def mounted_def)
  have second: "activate example_env True (Some ()) None (?c1, ?w1)
      = (?c1\<lparr>status_cell := ready, error_cell := None, instance_cell := Some 42\<rparr>,
         ?w1\<lparr>initSDK_calls := initSDK_calls ?w1 + 1,
          notified := notified ?w1 @ [sdk_initializing, sdk_initialized, creating]\<rparr>)"
    by (rule example_activate) (simp_all add: example_world_def mounted_def)
  show ?thesis
    unfolding first second by (simp add: example_world_def)
qed

subsection \<open>The lifecycle controller\<close>

lemma settle_cells:
  "status_cell (settle outcome c) = (case outcome of Inl _ \<Rightarrow> error_state | Inr _ \<Rightarrow> ready)
   \<and> instance_cell (settle outcome c) = (case outcome of Inl _ \<Rightarrow> instance_cell c | Inr i \<Rightarrow> Some i)
   \<and> error_cell (settle outcome c) = (case outcome of Inl e \<Rightarrow> Some e | Inr _ \<Rightarrow> error_cell c)
   \<and> initializingRef (settle outcome c) = False"
  by (simp add: settle_def split: sum.splits)

text \<open>
  C2. An effect run on a controller that is not initializing, with a transport, starts a
  run and marks the controller loading. When \<^verbatim>\<open>createFhevmInstance\<close> has returned or thrown,
  the controller is ready and holds the instance, or is in the error state and holds the
  error as a value; it is not loading and not initializing. Whatever events reach the
  controller between the start and the arrival of the result, the arrival sets the status to
  ready or to the error state. Every awaited call is taken to settle.
\<close>

theorem activation_settles:
  assumes "\<not> initializingRef c"
  shows "snd (effect True (Some p) c) = True
     \<and> status_cell (fst (effect True (Some p) c)) = loading
     \<and> fst (activate env True (Some p) mockChains (c, w))
         = settle (fst (createFhevmInstance env (Provider p) mockChains never_aborted w))
             (fst (effect True (Some p) c))
     \<and> (case fst (createFhevmInstance env (Provider p) mockChains never_aborted w) of
           Inr i \<Rightarrow> status_cell (fst (activate env True (Some p) mockChains (c, w))) = ready
                   \<and> instance_cell (fst (activate env True (Some p) mockChains (c, w))) = Some i
         | Inl e \<Rightarrow> status_cell (fst (activate env True (Some p) mockChains (c, w))) = error_state
                   \<and> error_cell (fst (activate env True (Some p) mockChains (c, w))) = Some e)
     \<and> status_cell (fst (activate env True (Some p) mockChains (c, w))) \<noteq> loading
     \<and> initializingRef (fst (activate env True (Some p) mockChains (c, w))) = False
     \<and> status_cell (settle outcome (steps es (fst (effect True (Some p) c))))
         = (case outcome of Inl _ \<Rightarrow> error_state | Inr _ \<Rightarrow> ready)"
proof -
  let ?r = "createFhevmInstance env (Provider p) mockChains never_aborted w"
  let ?c1 = "fst (effect True (Some p) c)"
  from assms have started: "effect True (Some p) c
      = (c\<lparr>initializingRef := True, status_cell := loading, error_cell := None\<rparr>, True)"
    by (simp add: effect_def)
  then have run: "fst (activate env True (Some p) mockChains (c, w)) = settle (fst ?r) ?c1"
    by (simp add: activate_def split: prod.splits)
  have a1: "snd (effect True (Some p) c) = True"
    and a2: "status_cell ?c1 = loading"
    by (simp_all add: started)
  have a4: "(case fst ?r of
           Inr i \<Rightarrow> status_cell (fst (activate env True (Some p) mockChains (c, w))) = ready
                   \<and> instance_cell (fst (activate env True (Some p) mockChains (c, w))) = Some i
         | Inl e \<Rightarrow> status_cell (fst (activate env True (Some p) mockChains (c, w))) = error_state
                   \<and> error_cell (fst (activate env True (Some p) mockChains (c, w))) = Some e)"
    unfolding run by (simp add: settle_cells split: sum.splits)
  have a5: "status_cell (fst (activate env True (Some p) mockChains (c, w))) \<noteq> loading"
    unfolding run by (simp add: settle_cells split: sum.splits)
  have a6: "initializingRef (fst (activate env True (Some p) mockChains (c, w))) = False"
    unfolding run by (simp add: settle_cells)
  have a7: "status_cell (settle outcome (steps es ?c1))
         = (case outcome of Inl _ \<Rightarrow> error_state | Inr _ \<Rightarrow> ready)"
    by (simp add: settle_cells)
  from a1 a2 run a4 a5 a6 a7 show ?thesis
    by blast
qed

theorem activation_settles_witness:
  "status_cell (fst (activate example_env True (Some ()) None (mounted, example_world))) = ready
   \<and> instance_cell (fst (activate example_env True (Some ()) None (mounted, example_world))) = Some 42
   \<and> status_cell (fst (activate example_env True (Some ()) None
        (mounted, example_world\<lparr>relayerSDK := Some Falsy\<rparr>))) = error_state
   \<and> error_cell (fst (activate example_env True (Some ()) None
        (mounted, example_world\<lparr>relayerSDK := Some Falsy\<rparr>)))
       = Some (TypeError ''window.relayerSDK.initSDK is not a function'')"
proof -
  have m: "\<not> initializingRef (mounted :: nat controller)"
    by (simp add: mounted_def)
  have ok: "fst (createFhevmInstance example_env (Provider ()) None never_aborted example_world) = Inr 42"
    by (simp add: example_create example_world_def)
  have bad: "fst (createFhevmInstance example_env (Provider ()) None never_aborted
      (example_world\<lparr>relayerSDK := Some Falsy\<rparr>))
      = Inl (TypeError ''window.relayerSDK.initSDK is not a function'')"
    by (simp add: createFhevmInstance_def example_resolve)
       (simp add: load_step_def load_def init_step_def notify_def never_aborted_def example_world_def)
  from activation_settles [OF m, of "()" example_env None example_world "Inr 0" "[]"]
    activation_settles [OF m, of "()" example_env None "example_world\<lparr>relayerSDK := Some Falsy\<rparr>"
      "Inr 0" "[]"] ok bad
  show ?thesis
    by (simp add: settle_cells)
qed

text \<open>
  C1, as stated, fails. With transport A in flight, the effect run for transport B is skipped,
  and A's result is stored when it arrives. When \<^verbatim>\<open>refresh\<close> is called in between, both runs
  are in flight, and A's result, arriving after B's, replaces it.
\<close>

theorem late_result_observed_counterexample:
  "snd (effect True (Some ''B'') (fst (effect True (Some ''A'') (mounted :: string controller)))) = False
   \<and> instance_cell (steps [Effect True (Some ''A''), Effect True (Some ''B''),
        Settled (Inr ''session A'')] mounted) = Some ''session A''
   \<and> status_cell (steps [Effect True (Some ''A''), Effect True (Some ''B''),
        Settled (Inr ''session A'')] mounted) = ready
   \<and> instance_cell (steps [Effect True (Some ''A''), Refresh, Effect True (Some ''B''),
        Settled (Inr ''session B''), Settled (Inr ''session A'')] mounted) = Some ''session A''"
  by (simp add: effect_def mounted_def settle_def refresh_def)

text \<open>
  C1, as the code has it. While a run is in flight, a further effect run changes nothing and
  starts nothing, whatever its parameters: it is skipped, not queued. The result of the run
  in flight is stored when it arrives: the instance with status ready, or the error with the
  error status.
\<close>

theorem in_flight_activation_wins:
  assumes "\<not> initializingRef c"
  shows "snd (effect True (Some a) c) = True
     \<and> effect enabled b (fst (effect True (Some a) c)) = (fst (effect True (Some a) c), False)
     \<and> steps [Effect True (Some a), Effect enabled b, Settled outcome] c
         = settle outcome (fst (effect True (Some a) c))
     \<and> (case outcome of
           Inr i \<Rightarrow> instance_cell (steps [Effect True (Some a), Effect enabled b, Settled outcome] c) = Some i
                   \<and> status_cell (steps [Effect True (Some a), Effect enabled b, Settled outcome] c) = ready
         | Inl e \<Rightarrow> error_cell (steps [Effect True (Some a), Effect enabled b, Settled outcome] c) = Some e
                   \<and> status_cell (steps [Effect True (Some a), Effect enabled b, Settled outcome] c)
                       = error_state)"
proof -
  let ?c1 = "fst (effect True (Some a) c)"
  from assms have started: "effect True (Some a) c
      = (c\<lparr>initializingRef := True, status_cell := loading, error_cell := None\<rparr>, True)"
    by (simp add: effect_def)
  then have skipped: "effect enabled b ?c1 = (?c1, False)"
    by (simp add: effect_def)
  then have trace: "steps [Effect True (Some a), Effect enabled b, Settled outcome] c = settle outcome ?c1"
    by simp
  have cells: "(case outcome of
           Inr i \<Rightarrow> instance_cell (settle outcome ?c1) = Some i \<and> status_cell (settle outcome ?c1) = ready
         | Inl e \<Rightarrow> error_cell (settle outcome ?c1) = Some e
                   \<and> status_cell (settle outcome ?c1) = error_state)"
    by (simp add: settle_cells split: sum.splits)
  from started have "snd (effect True (Some a) c) = True"
    by simp
  with skipped trace cells show ?thesis
    by (simp only:) 
qed

theorem in_flight_activation_wins_witness:
  "steps [Effect True (Some ''A''), Effect True (Some ''B''), Settled (Inr ''session A'')] mounted
     = \<lparr>instance_cell = Some ''session A'', status_cell = ready, error_cell = None,
        initializingRef = False\<rparr>
   \<and> effect True (Some ''B'') (fst (effect True (Some ''A'') (mounted :: string controller)))
     = (fst (effect True (Some ''A'') mounted), False)"
proof -
  have m: "\<not> initializingRef (mounted :: string controller)"
    by (simp add: mounted_def)
  have s: "settle (Inr ''session A'') (fst (effect True (Some ''A'') (mounted :: string controller)))
      = \<lparr>instance_cell = Some ''session A'', status_cell = ready, error_cell = None,
         initializingRef = False\<rparr>"
    by (simp add: settle_def effect_def mounted_def)
  from in_flight_activation_wins [OF m, where a = "''A''" and enabled = True and b = "Some ''B''"
      and outcome = "Inr ''session A''"]
  have "steps [Effect True (Some ''A''), Effect True (Some ''B''), Settled (Inr ''session A'')] mounted
         = settle (Inr ''session A'') (fst (effect True (Some ''A'') (mounted :: string controller)))"
    and "effect True (Some ''B'') (fst (effect True (Some ''A'') (mounted :: string controller)))
     = (fst (effect True (Some ''A'') mounted), False)"
    by blast+
  with s show ?thesis
    by (simp only:)
qed

subsection \<open>Decryption grants\<close>

lemma floor_ms: "\<lfloor>real_of_int n / 1000\<rfloor> = n div 1000"
  using floor_divide_of_int_eq [of n 1000, where ?'a = real] by simp

lemma new_signature_fields:
  "new_signature createEIP712 cs pk sk getAddress signTypedData now = Some g \<Longrightarrow>
   startTimestamp g = real_of_int (now div 1000) \<and> durationDays g = 365"
  by (auto simp add: new_signature_def Let_def floor_ms split: sum.splits)

lemma isValid_ms:
  "isValid g now \<longleftrightarrow> real_of_int now < (startTimestamp g + durationDays g * 86400) * 1000"
  by (simp add: isValid_def field_simps)

text \<open>
  C7. A grant is valid at a time exactly when that time, in seconds, is strictly before the
  issuance time plus the validity window (days of 86400 seconds). A grant created by
  \<^verbatim>\<open>FhevmDecryptionSignature.new\<close> at the millisecond \<open>issued\<close> is issued at the second
  \<open>issued div 1000\<close> with a window of 365 days: it is valid at \<open>issued\<close>, and at any millisecond
  \<open>t\<close> it is valid exactly when \<open>t\<close> is before the issuance second plus 365 days.
\<close>

theorem grant_valid_within_window:
  "(isValid g now \<longleftrightarrow> real_of_int now / 1000 < startTimestamp g + durationDays g * 86400)
   \<and> (new_signature createEIP712 cs pk sk getAddress signTypedData issued = Some g' \<longrightarrow>
        startTimestamp g' = real_of_int (issued div 1000) \<and> durationDays g' = 365
        \<and> isValid g' issued
        \<and> (\<forall>t. isValid g' t \<longleftrightarrow> t < (issued div 1000 + 365 * 86400) * 1000))"
proof -
  have iff: "isValid g now \<longleftrightarrow> real_of_int now / 1000 < startTimestamp g + durationDays g * 86400"
    by (simp add: isValid_def)
  have created: "startTimestamp g' = real_of_int (issued div 1000) \<and> durationDays g' = 365
        \<and> isValid g' issued
        \<and> (\<forall>t. isValid g' t \<longleftrightarrow> t < (issued div 1000 + 365 * 86400) * 1000)"
    if "new_signature createEIP712 cs pk sk getAddress signTypedData issued = Some g'"
  proof -
    from that have f: "startTimestamp g' = real_of_int (issued div 1000)" "durationDays g' = 365"
      by (simp_all add: new_signature_fields)
    have window: "isValid g' t \<longleftrightarrow> t < (issued div 1000 + 365 * 86400) * 1000" for t
    proof -
      have "isValid g' t \<longleftrightarrow> real_of_int t < real_of_int ((issued div 1000 + 365 * 86400) * 1000)"
        by (simp add: isValid_ms f)
      then show ?thesis
        by (simp only: of_int_less_iff)
    qed
    have "issued < (issued div 1000 + 365 * 86400) * 1000"
      by presburger
    with window [of issued] have "isValid g' issued"
      by simp
    with f window show ?thesis
      by blast
  qed
  from iff created show ?thesis
    by blast
qed

theorem grant_valid_within_window_witness:
  "\<exists>g. new_signature (\<lambda>_ _ _ _. Inr ()) [''0xC''] ''pk'' ''sk'' (Inr ''0xU'') (\<lambda>_. Inr ''0xS'')
          1700000000123 = Some g
       \<and> isValid g 1700000000123 \<and> isValid g 1731535999999 \<and> \<not> isValid g 1731536000000"
proof -
  obtain g where g: "new_signature (\<lambda>_ _ _ _. Inr ()) [''0xC''] ''pk'' ''sk'' (Inr ''0xU'') (\<lambda>_. Inr ''0xS'')
          1700000000123 = Some (g :: unit FhevmDecryptionSignature)"
    by (simp add: new_signature_def)
  from grant_valid_within_window [of g 0 "\<lambda>_ _ _ _. Inr ()" "[''0xC'']" "''pk''" "''sk''"
      "Inr ''0xU''" "\<lambda>_. Inr ''0xS''" 1700000000123 g] g
  have "isValid g 1700000000123"
    and "\<forall>t. isValid g t \<longleftrightarrow> t < (1700000000123 div 1000 + 365 * 86400) * 1000"
    by blast+
  then have "isValid g 1700000000123 \<and> isValid g 1731535999999 \<and> \<not> isValid g 1731536000000"
    by simp
  with g show ?thesis
    by blast
qed

end
